theory Spec2Isabelle
  imports Complex_Main
begin

section \<open>JavaScript values used by the miner\<close>

text \<open>
  The source is TypeScript. Amounts in wei are \<open>bigint\<close> (unbounded integers, modelled as
  \<open>int\<close>); byte sizes, percentages and ETH amounts are \<open>number\<close> (IEEE binary64).
  Byte sizes and kilobyte counts are whole numbers far below \<open>2^53\<close>, where \<open>number\<close>
  arithmetic is exact, so they are modelled as \<open>int\<close>. The \<open>number\<close>s that are real
  fractions (efficiency, ETH amounts) are modelled by the type \<open>number\<close> below, with
  round-to-nearest, ties-to-even rounding to 53 significant bits written out.
\<close>

datatype error = RangeError | SyntaxError | Error string

datatype number = Finite rat | PosInfinity | NegInfinity | NaN

text \<open>The number of binary digits of a positive integer.\<close>

function bit_length :: "int \<Rightarrow> int" where
  "bit_length n = (if n \<le> 0 then 0 else bit_length (n div 2) + 1)"
  by pat_completeness auto
termination
  by (relation "measure (\<lambda>n. nat n)") auto

text \<open>\<open>floor_log2 q\<close> is the integer \<open>k\<close> with \<open>2^k \<le> q < 2^(k+1)\<close>, for \<open>q > 0\<close>.\<close>

definition floor_log2 :: "rat \<Rightarrow> int" where
  "floor_log2 q =
     (if 1 \<le> q then bit_length \<lfloor>q\<rfloor> - 1 else - bit_length (\<lceil>1 / q\<rceil> - 1))"

definition round_half_even :: "rat \<Rightarrow> int" where
  "round_half_even q =
     (let f = \<lfloor>q\<rfloor>; r = q - of_int f
      in if r < 1 / 2 then f else if 1 / 2 < r then f + 1 else if even f then f else f + 1)"

text \<open>
  The binary64 value nearest to a rational: 53 significant bits in the normal range, a
  fixed exponent of \<open>-1074\<close> in the subnormal range. \<open>exponent_of q\<close> is the exponent of
  the unit in the last place at \<open>q\<close>. Negative zero is identified with zero (no operation
  modelled here tells them apart).
\<close>

definition exponent_of :: "rat \<Rightarrow> int" where
  "exponent_of q = max (floor_log2 \<bar>q\<bar> - 52) (- 1074)"

definition binary64 :: "rat \<Rightarrow> rat" where
  "binary64 q =
     (if q = 0 then 0
      else let e = exponent_of q
           in sgn q * of_int (round_half_even (\<bar>q\<bar> / 2 powi e)) * 2 powi e)"

text \<open>Rounding a rational to a number: values beyond the binary64 range become infinite.\<close>

definition fromRat :: "rat \<Rightarrow> number" where
  "fromRat q =
     (let d = binary64 q
      in if 2 ^ 1024 \<le> d then PosInfinity
         else if d \<le> - (2 ^ 1024) then NegInfinity
         else Finite d)"

text \<open>\<open>Number(b)\<close> for a bigint \<open>b\<close>.\<close>

definition Number_of_bigint :: "int \<Rightarrow> number" where
  "Number_of_bigint b = fromRat (of_int b)"

text \<open>The operator \<open>/\<close> on numbers.\<close>

fun number_divide :: "number \<Rightarrow> number \<Rightarrow> number" where
  "number_divide NaN _ = NaN"
| "number_divide _ NaN = NaN"
| "number_divide (Finite a) (Finite b) =
     (if b = 0 then (if a = 0 then NaN else if 0 < a then PosInfinity else NegInfinity)
      else fromRat (a / b))"
| "number_divide (Finite a) _ = Finite 0"
| "number_divide PosInfinity (Finite b) = (if 0 \<le> b then PosInfinity else NegInfinity)"
| "number_divide NegInfinity (Finite b) = (if 0 \<le> b then NegInfinity else PosInfinity)"
| "number_divide _ _ = NaN"

text \<open>The operator \<open>*\<close> on numbers.\<close>

fun number_times :: "number \<Rightarrow> number \<Rightarrow> number" where
  "number_times NaN _ = NaN"
| "number_times _ NaN = NaN"
| "number_times (Finite a) (Finite b) = fromRat (a * b)"
| "number_times (Finite a) PosInfinity =
     (if a = 0 then NaN else if 0 < a then PosInfinity else NegInfinity)"
| "number_times (Finite a) NegInfinity =
     (if a = 0 then NaN else if 0 < a then NegInfinity else PosInfinity)"
| "number_times PosInfinity (Finite b) =
     (if b = 0 then NaN else if 0 < b then PosInfinity else NegInfinity)"
| "number_times NegInfinity (Finite b) =
     (if b = 0 then NaN else if 0 < b then NegInfinity else PosInfinity)"
| "number_times PosInfinity PosInfinity = PosInfinity"
| "number_times NegInfinity NegInfinity = PosInfinity"
| "number_times _ _ = NegInfinity"

text \<open>The operator \<open>-\<close> on numbers.\<close>

fun number_minus :: "number \<Rightarrow> number \<Rightarrow> number" where
  "number_minus NaN _ = NaN"
| "number_minus _ NaN = NaN"
| "number_minus (Finite a) (Finite b) = fromRat (a - b)"
| "number_minus (Finite a) PosInfinity = NegInfinity"
| "number_minus (Finite a) NegInfinity = PosInfinity"
| "number_minus PosInfinity PosInfinity = NaN"
| "number_minus NegInfinity NegInfinity = NaN"
| "number_minus PosInfinity _ = PosInfinity"
| "number_minus NegInfinity _ = NegInfinity"

text \<open>\<open>Math.max\<close> of two numbers.\<close>

fun Math_max :: "number \<Rightarrow> number \<Rightarrow> number" where
  "Math_max NaN _ = NaN"
| "Math_max _ NaN = NaN"
| "Math_max PosInfinity _ = PosInfinity"
| "Math_max _ PosInfinity = PosInfinity"
| "Math_max NegInfinity y = y"
| "Math_max x NegInfinity = x"
| "Math_max (Finite a) (Finite b) = Finite (max a b)"

text \<open>
  \<open>BigInt(x)\<close> for a number \<open>x\<close>: a \<open>RangeError\<close> unless \<open>x\<close> is a whole number.
\<close>

definition BigInt_of_number :: "number \<Rightarrow> error + int" where
  "BigInt_of_number x =
     (case x of
        Finite q \<Rightarrow> if of_int \<lfloor>q\<rfloor> = q then Inr \<lfloor>q\<rfloor> else Inl RangeError
      | _ \<Rightarrow> Inl RangeError)"

text \<open>The operator \<open><\<close> on numbers: every comparison with \<open>NaN\<close> is false.\<close>

fun number_less :: "number \<Rightarrow> number \<Rightarrow> bool" where
  "number_less NaN _ = False"
| "number_less _ NaN = False"
| "number_less (Finite a) (Finite b) = (a < b)"
| "number_less (Finite a) PosInfinity = True"
| "number_less NegInfinity (Finite b) = True"
| "number_less NegInfinity PosInfinity = True"
| "number_less _ _ = False"

text \<open>
  The operator \<open>/\<close> on bigints truncates towards zero and throws a \<open>RangeError\<close> on a
  zero divisor.
\<close>

definition bigint_div :: "int \<Rightarrow> int \<Rightarrow> error + int" where
  "bigint_div a b =
     (if b = 0 then Inl RangeError else Inr (sgn a * sgn b * (\<bar>a\<bar> div \<bar>b\<bar>)))"

section \<open>Economic calculator (fct-calculator)\<close>

record fct_params =
  dataSize :: int
  baseFee :: int
  mintRate :: int
  calldataGasOverride :: "int option"
  gasPrice :: "int option"

record fct_output =
  calldataGas :: int
  fctMinted :: int
  efficiency :: number
  totalGas :: int
  ethBurned :: int
  costPerFct :: int

text \<open>
  The source computes the calldata gas from the size, a \<open>number\<close>, as
  \<open>BigInt(Math.max(dataSize - 160, 0) * 40)\<close>. On a size that is any number this is
  \<open>calldataGas_of_size\<close>: it rounds to binary64 at each step and throws a \<open>RangeError\<close>
  when the product is not a whole number.
\<close>

definition calldataGas_of_size :: "number \<Rightarrow> error + int" where
  "calldataGas_of_size size_in_bytes =
     (let overheadBytes = Finite 160;
          mineBoostSize = Math_max (number_minus size_in_bytes overheadBytes) (Finite 0)
      in BigInt_of_number (number_times mineBoostSize (Finite 40)))"

text \<open>
  In \<open>calculateFctOutput\<close> the size is a whole number of bytes and the arithmetic on it is
  integer arithmetic. Up to 225179981368684 bytes that is \<open>calldataGas_of_size\<close> exactly
  (lemma \<open>calldataGas_of_size_whole\<close> below); sizes that are not whole numbers, and the
  rounding of the source beyond that bound, are outside \<open>calculateFctOutput\<close>.
\<close>

definition calculateFctOutput :: "fct_params \<Rightarrow> error + fct_output" where
  "calculateFctOutput params =
     (let baseExecutionGas = 21000;
          overheadBytes = 160;
          mineBoostSize = max (dataSize params - overheadBytes) 0;
          cg = (case calldataGasOverride params of Some g \<Rightarrow> g | None \<Rightarrow> mineBoostSize * 40);
          tg = cg + baseExecutionGas;
          minted = cg * baseFee params * mintRate params;
          eff = number_times (number_divide (Number_of_bigint cg) (Number_of_bigint tg))
                  (Finite 100);
          effectiveGasPrice = (case gasPrice params of Some g \<Rightarrow> g | None \<Rightarrow> baseFee params);
          burned = tg * effectiveGasPrice
      in case (if 0 < minted then bigint_div (burned * 10 ^ 18) minted else Inr 0) of
           Inl e \<Rightarrow> Inl e
         | Inr cost \<Rightarrow>
             Inr \<lparr>calldataGas = cg, fctMinted = minted, efficiency = eff, totalGas = tg,
                  ethBurned = burned, costPerFct = cost\<rparr>)"


section \<open>Rule engine and size optimizer (auto-miner)\<close>

datatype MiningStrategy = AUTO | ARBITRAGE

record RuntimeContext =
  currentGasPrice :: int
  currentBaseFee :: int
  currentMintRate :: int
  dexSpotPrice :: "int option"
  sessionSpent :: int
  sessionMined :: int
  timestamp :: int
  ethPriceUsd :: number

text \<open>
  A rule is an async function: its promise resolves to a boolean (\<open>Inr\<close>) or rejects
  (\<open>Inl\<close>).
\<close>

type_synonym Rule = "RuntimeContext \<Rightarrow> error + bool"

text \<open>
  \<open>Number(formatEther(wei))\<close>: \<open>formatEther\<close> (viem) prints \<open>wei / 10^18\<close> as an exact
  decimal string, and \<open>Number\<close> reads the string as the nearest binary64 value (as Node
  does; ECMAScript lets an engine drop the digits after the twentieth).
\<close>

definition Number_formatEther :: "int \<Rightarrow> number" where
  "Number_formatEther wei = fromRat (of_int wei / 10 ^ 18)"

text \<open>\<open>!x\<close> for \<open>x : bigint | null\<close>: true for \<open>null\<close> and for \<open>0n\<close>.\<close>

definition falsy :: "int option \<Rightarrow> bool" where
  "falsy x = (case x of None \<Rightarrow> True | Some v \<Rightarrow> v = 0)"

definition calculateCostPerFct :: "RuntimeContext \<Rightarrow> error + int" where
  "calculateCostPerFct ctx =
     (let dataSize = 50 * 1024
      in case calculateFctOutput
                \<lparr>dataSize = dataSize, baseFee = currentBaseFee ctx,
                 mintRate = currentMintRate ctx, calldataGasOverride = None,
                 gasPrice = Some (currentGasPrice ctx)\<rparr> of
           Inl e \<Rightarrow> Inl e
         | Inr calc \<Rightarrow> Inr (costPerFct calc))"

definition budgetRule :: "number \<Rightarrow> Rule" where
  "budgetRule maxEth ctx =
     (let spentEth = Number_formatEther (sessionSpent ctx);
          underBudget = number_less spentEth maxEth
      in Inr underBudget)"

text \<open>
  \<open>isMainnet()\<close> comes from the configuration module, which reads the environment; it is
  a parameter here. The savings percentage is computed for the log line only, but its
  bigint division is kept because it could throw.
\<close>

definition arbitrageRule :: "bool \<Rightarrow> Rule" where
  "arbitrageRule isMainnet ctx =
     (if falsy (dexSpotPrice ctx) \<or> \<not> isMainnet then Inr False
      else case calculateCostPerFct ctx of
             Inl e \<Rightarrow> Inl e
           | Inr miningCost \<Rightarrow>
               (let spot = the (dexSpotPrice ctx);
                    profitable = miningCost < spot
                in if \<not> profitable then Inr False
                   else case bigint_div ((spot - miningCost) * 10000) spot of
                          Inl e \<Rightarrow> Inl e
                        | Inr savings \<Rightarrow> Inr True))"

text \<open>
  \<open>Promise.all\<close> over promises that are already settled: the list of values, or the first
  rejection.
\<close>

fun promise_all :: "(error + 'a) list \<Rightarrow> error + 'a list" where
  "promise_all [] = Inr []"
| "promise_all (x # xs) =
     (case x of
        Inl e \<Rightarrow> Inl e
      | Inr v \<Rightarrow> (case promise_all xs of Inl e \<Rightarrow> Inl e | Inr vs \<Rightarrow> Inr (v # vs)))"

definition evaluateRules :: "Rule list \<Rightarrow> RuntimeContext \<Rightarrow> error + bool" where
  "evaluateRules rules ctx =
     (if length rules = 0 then Inr True
      else case promise_all (map (\<lambda>rule. rule ctx) rules) of
             Inl e \<Rightarrow> Inl e
           | Inr results \<Rightarrow> Inr (list_all (\<lambda>result. result = True) results))"

text \<open>The \<open>while (low <= high)\<close> loop of \<open>getOptimalDataSize\<close>.\<close>

function budget_search :: "RuntimeContext \<Rightarrow> int \<Rightarrow> int \<Rightarrow> int \<Rightarrow> int \<Rightarrow> error + int" where
  "budget_search ctx remainingBudget low high optimal =
     (if low \<le> high then
        (let mid = (low + high) div 2
         in case calculateFctOutput
                   \<lparr>dataSize = mid, baseFee = currentBaseFee ctx,
                    mintRate = currentMintRate ctx, calldataGasOverride = None,
                    gasPrice = Some (currentGasPrice ctx)\<rparr> of
              Inl e \<Rightarrow> Inl e
            | Inr calc \<Rightarrow>
                if ethBurned calc \<le> remainingBudget
                then budget_search ctx remainingBudget (mid + 1) high mid
                else budget_search ctx remainingBudget low (mid - 1) optimal)
      else Inr optimal)"
  by pat_completeness auto
termination
  by (relation "measure (\<lambda>(ctx, b, low, high, optimal). nat (high + 1 - low))") auto

text \<open>
  The budget block at the head of \<open>getOptimalDataSize\<close>: \<open>Some size\<close> when the block
  returns a size, \<open>None\<close> when control falls through to the strategy switch.
\<close>

definition budget_block :: "RuntimeContext \<Rightarrow> int \<Rightarrow> int option \<Rightarrow> error + int option" where
  "budget_block ctx maxSize remainingBudget =
     (let KB = 1024
      in if \<not> falsy remainingBudget \<and> 0 < the remainingBudget then
           (case calculateFctOutput
                   \<lparr>dataSize = maxSize, baseFee = currentBaseFee ctx,
                    mintRate = currentMintRate ctx, calldataGasOverride = None,
                    gasPrice = Some (currentGasPrice ctx)\<rparr> of
              Inl e \<Rightarrow> Inl e
            | Inr testCalc \<Rightarrow>
                if the remainingBudget < ethBurned testCalc
                then (case budget_search ctx (the remainingBudget) (1 * KB) maxSize (1 * KB) of
                        Inl e \<Rightarrow> Inl e
                      | Inr optimal \<Rightarrow> Inr (Some optimal))
                else Inr None)
         else Inr None)"

definition getOptimalDataSize ::
  "MiningStrategy \<Rightarrow> RuntimeContext \<Rightarrow> int \<Rightarrow> int option \<Rightarrow> error + int" where
  "getOptimalDataSize strategy ctx maxKb remainingBudget =
     (let KB = 1024;
          maxSize = maxKb * KB
      in case budget_block ctx maxSize remainingBudget of
           Inl e \<Rightarrow> Inl e
         | Inr (Some optimal) \<Rightarrow> Inr optimal
         | Inr None \<Rightarrow>
             (case strategy of
                AUTO \<Rightarrow> Inr maxSize
              | ARBITRAGE \<Rightarrow>
                  if falsy (dexSpotPrice ctx) then Inr 0
                  else case calculateCostPerFct ctx of
                         Inl e \<Rightarrow> Inl e
                       | Inr miningCost \<Rightarrow>
                           Inr (if miningCost < the (dexSpotPrice ctx) then maxSize else 0)))"

section \<open>Submission retry loop (mining-engine)\<close>

record MiningConfig =
  cfg_dataSize :: int
  gasMultiplier :: "number option"
  maxRetries :: "int option"
  escalateGas :: "bool option"

text \<open>
  What \<open>mine\<close> does to the outside world: it starts attempts (the argument is the attempt
  index) and sleeps (the argument is the delay in milliseconds).
\<close>

datatype event = Attempt int | Sleep int

text \<open>
  The \<open>for\<close> loop of \<open>mine\<close>. \<open>attemptMining\<close> talks to the network; it is the parameter
  \<open>attemptMining\<close>, giving the outcome of each attempt.
\<close>

function mine_loop ::
  "(MiningConfig \<Rightarrow> int \<Rightarrow> error + 'r) \<Rightarrow> MiningConfig \<Rightarrow> int \<Rightarrow> int \<Rightarrow> error option \<Rightarrow>
     event list \<Rightarrow> event list \<times> (error + 'r)" where
  "mine_loop attemptMining config retries attempt lastError trace =
     (if attempt < retries then
        (case attemptMining config attempt of
           Inr r \<Rightarrow> (trace @ [Attempt attempt], Inr r)
         | Inl e \<Rightarrow>
             if attempt < retries - 1 then
               (let delay = min (1000 * 2 ^ nat attempt) 30000
                in mine_loop attemptMining config retries (attempt + 1) (Some e)
                     (trace @ [Attempt attempt, Sleep delay]))
             else mine_loop attemptMining config retries (attempt + 1) (Some e)
                    (trace @ [Attempt attempt]))
      else (trace, Inl (case lastError of Some e \<Rightarrow> e | None \<Rightarrow> Error ''Mining failed'')))"
  by pat_completeness auto
termination
  by (relation "measure (\<lambda>(f, c, retries, attempt, e, t). nat (retries - attempt))") auto

definition mine ::
  "(MiningConfig \<Rightarrow> int \<Rightarrow> error + 'r) \<Rightarrow> MiningConfig \<Rightarrow> event list \<times> (error + 'r)" where
  "mine attemptMining config =
     (let retries = (case maxRetries config of Some n \<Rightarrow> n | None \<Rightarrow> 3)
      in mine_loop attemptMining config retries 0 None [])"

section \<open>Session store (mining-database-json) and start-up of the control loop\<close>

text \<open>
  The JSON store. A timestamp is the value of \<open>Date.now()\<close> at the call, passed in as
  \<open>now\<close>. The transactions table is left out: no operation modelled here reads it.
\<close>

record session_row =
  row_id :: int
  startedAt :: int
  endedAt :: "int option"
  totalEthSpentWei :: string
  totalEthSpentEth :: number
  totalFctMinedWei :: string
  totalFctMinedFct :: number
  row_strategy :: string
  status :: string

record runtime_entry =
  entry_value :: string
  updatedAt :: int

record DatabaseData =
  sessions :: "session_row list"
  runtimeState :: "string \<rightharpoonup> runtime_entry"
  nextSessionId :: int
  nextTransactionId :: int

definition initializeEmpty :: DatabaseData where
  "initializeEmpty =
     \<lparr>sessions = [], runtimeState = Map.empty, nextSessionId = 1, nextTransactionId = 1\<rparr>"

definition createSession :: "DatabaseData \<Rightarrow> string \<Rightarrow> int \<Rightarrow> int \<times> DatabaseData" where
  "createSession db strategy now =
     (let sessionId = nextSessionId db
      in (sessionId,
          db\<lparr>nextSessionId := nextSessionId db + 1,
             sessions := sessions db @
               [\<lparr>row_id = sessionId, startedAt = now, endedAt = None,
                 totalEthSpentWei = ''0'', totalEthSpentEth = Finite 0,
                 totalFctMinedWei = ''0'', totalFctMinedFct = Finite 0,
                 row_strategy = strategy, status = ''active''\<rparr>]\<rparr>))"

definition saveRuntimeState :: "DatabaseData \<Rightarrow> string \<Rightarrow> string \<Rightarrow> int \<Rightarrow> DatabaseData" where
  "saveRuntimeState db key v now =
     db\<lparr>runtimeState := (runtimeState db)(key \<mapsto> \<lparr>entry_value = v, updatedAt = now\<rparr>)\<rparr>"

definition getRuntimeState :: "DatabaseData \<Rightarrow> string \<Rightarrow> string option" where
  "getRuntimeState db key =
     (case runtimeState db key of None \<Rightarrow> None | Some state \<Rightarrow> Some (entry_value state))"

text \<open>
  Decimal rendering of an integer: \<open>toString()\<close> of a bigint, and the text a template
  literal gives for a whole number.
\<close>

definition digit_char :: "int \<Rightarrow> char" where
  "digit_char d = ''0123456789'' ! nat d"

function digits_of :: "int \<Rightarrow> string" where
  "digits_of n =
     (if n < 10 then [digit_char n] else digits_of (n div 10) @ [digit_char (n mod 10)])"
  by pat_completeness auto
termination
  by (relation "measure (\<lambda>n. nat n)") auto

definition decimal :: "int \<Rightarrow> string" where
  "decimal i = (if i < 0 then CHR ''-'' # digits_of (- i) else digits_of i)"

text \<open>
  \<open>BigInt(s)\<close> for a string: the empty string is \<open>0n\<close>, a text that is not a number throws
  a \<open>SyntaxError\<close>. Only plain decimal texts with an optional sign are read here, which
  covers every text \<open>toString()\<close> writes; surrounding blanks and the prefixes \<open>0x\<close>, \<open>0o\<close>
  and \<open>0b\<close>, which JavaScript also accepts, are rejected.
\<close>

definition digit_value :: "char \<Rightarrow> int option" where
  "digit_value c =
     (let code = (of_char c :: int)
      in if 48 \<le> code \<and> code \<le> 57 then Some (code - 48) else None)"

fun parse_digits :: "string \<Rightarrow> int \<Rightarrow> int option" where
  "parse_digits [] acc = Some acc"
| "parse_digits (c # cs) acc =
     (case digit_value c of None \<Rightarrow> None | Some d \<Rightarrow> parse_digits cs (acc * 10 + d))"

definition parse_natural :: "string \<Rightarrow> int option" where
  "parse_natural s = (if s = [] then None else parse_digits s 0)"

definition BigInt_of_string :: "string \<Rightarrow> error + int" where
  "BigInt_of_string s =
     (case s of
        [] \<Rightarrow> Inr 0
      | c # cs \<Rightarrow>
          if c = CHR ''-'' then
            (case parse_natural cs of None \<Rightarrow> Inl SyntaxError | Some n \<Rightarrow> Inr (- n))
          else if c = CHR ''+'' then
            (case parse_natural cs of None \<Rightarrow> Inl SyntaxError | Some n \<Rightarrow> Inr n)
          else
            (case parse_natural s of None \<Rightarrow> Inl SyntaxError | Some n \<Rightarrow> Inr n))"

text \<open>The fields of an \<open>AutoMiner\<close> that the start-up and the bookkeeping touch.\<close>

record AutoMiner =
  running :: bool
  sessionId :: int
  miner_sessionSpent :: int
  miner_sessionMined :: int

text \<open>The field initialisers of the class.\<close>

definition new_AutoMiner :: AutoMiner where
  "new_AutoMiner =
     \<lparr>running = False, sessionId = 0, miner_sessionSpent = 0, miner_sessionMined = 0\<rparr>"

definition strategy_value :: "MiningStrategy \<Rightarrow> string" where
  "strategy_value strategy = (case strategy of AUTO \<Rightarrow> ''auto'' | ARBITRAGE \<Rightarrow> ''arbitrage'')"

text \<open>\<open>if (saved) field = BigInt(saved)\<close>: a missing or empty text leaves the field alone.\<close>

definition restore_field :: "string option \<Rightarrow> int \<Rightarrow> error + int" where
  "restore_field saved current =
     (case saved of
        None \<Rightarrow> Inr current
      | Some s \<Rightarrow> if s = [] then Inr current else BigInt_of_string s)"

text \<open>
  \<open>AutoMiner.start\<close> up to the mining loop: it opens a session and restores the counters
  from the store.
\<close>

definition start ::
  "MiningStrategy \<Rightarrow> int \<Rightarrow> AutoMiner \<Rightarrow> DatabaseData \<Rightarrow> error + AutoMiner \<times> DatabaseData" where
  "start strategy now miner db =
     (let miner1 = miner\<lparr>running := True\<rparr>;
          (sid, db1) = createSession db (strategy_value strategy) now;
          miner2 = miner1\<lparr>sessionId := sid\<rparr>;
          savedSpent = getRuntimeState db1 (''session_'' @ decimal (sessionId miner2) @ ''_spent'');
          savedMined = getRuntimeState db1 (''session_'' @ decimal (sessionId miner2) @ ''_mined'')
      in case restore_field savedSpent (miner_sessionSpent miner2) of
           Inl e \<Rightarrow> Inl e
         | Inr spent \<Rightarrow>
             (case restore_field savedMined (miner_sessionMined miner2) of
                Inl e \<Rightarrow> Inl e
              | Inr mined \<Rightarrow>
                  Inr (miner2\<lparr>miner_sessionSpent := spent, miner_sessionMined := mined\<rparr>, db1)))"

text \<open>
  The bookkeeping of \<open>miningCycle\<close> after a successful \<open>mine\<close>: the counters grow by the
  result and are written to the store under the keys of the current session. The call of
  \<open>saveTransaction\<close> between the two is left out with the transactions table.
\<close>

definition miningCycle_save ::
  "int \<Rightarrow> int \<Rightarrow> int \<Rightarrow> AutoMiner \<Rightarrow> DatabaseData \<Rightarrow> AutoMiner \<times> DatabaseData" where
  "miningCycle_save burned minted now miner db =
     (let miner1 = miner\<lparr>miner_sessionSpent := miner_sessionSpent miner + burned,
                        miner_sessionMined := miner_sessionMined miner + minted\<rparr>;
          db1 = saveRuntimeState db (''session_'' @ decimal (sessionId miner1) @ ''_spent'')
                  (decimal (miner_sessionSpent miner1)) now;
          db2 = saveRuntimeState db1 (''session_'' @ decimal (sessionId miner1) @ ''_mined'')
                  (decimal (miner_sessionMined miner1)) now
      in (miner1, db2))"

text \<open>
  The calculator called at a size under the conditions of a context, as the optimizer
  calls it.
\<close>

abbreviation calc_at :: "RuntimeContext \<Rightarrow> int \<Rightarrow> error + fct_output" where
  "calc_at ctx s \<equiv>
     calculateFctOutput
       \<lparr>dataSize = s, baseFee = currentBaseFee ctx, mintRate = currentMintRate ctx,
        calldataGasOverride = None, gasPrice = Some (currentGasPrice ctx)\<rparr>"

text \<open>The equations of the loops are unfolded by hand, one step at a time.\<close>

declare bit_length.simps [simp del]
declare budget_search.simps [simp del]
declare mine_loop.simps [simp del]
declare digits_of.simps [simp del]

section \<open>The calculator on whole-number sizes\<close>

lemma calculateFctOutput_not_isl: "\<not> isl (calculateFctOutput p)"
  by (simp add: calculateFctOutput_def Let_def bigint_div_def)

lemma calculateFctOutput_returns: "\<exists>r. calculateFctOutput p = Inr r"
  using calculateFctOutput_not_isl [of p] by (cases "calculateFctOutput p") simp_all

lemma calc_fields:
  assumes "calculateFctOutput p = Inr r"
  shows "calldataGas r =
           (case calldataGasOverride p of Some g \<Rightarrow> g | None \<Rightarrow> max (dataSize p - 160) 0 * 40)"
    and "totalGas r = calldataGas r + 21000"
    and "fctMinted r = calldataGas r * baseFee p * mintRate p"
    and "ethBurned r = totalGas r * (case gasPrice p of Some g \<Rightarrow> g | None \<Rightarrow> baseFee p)"
    and "costPerFct r =
           (if 0 < fctMinted r
            then sgn (ethBurned r * 10 ^ 18) * sgn (fctMinted r) *
                   (\<bar>ethBurned r * 10 ^ 18\<bar> div \<bar>fctMinted r\<bar>)
            else 0)"
  using assms
  by (auto simp add: calculateFctOutput_def Let_def bigint_div_def split: if_splits)

lemma bigint_quotient_zero_iff:
  fixes a b :: int
  assumes "0 < b"
  shows "sgn a * sgn b * (\<bar>a\<bar> div \<bar>b\<bar>) = 0 \<longleftrightarrow> \<bar>a\<bar> < b"
proof (cases "a = 0")
  case True
  with assms show ?thesis by simp
next
  case False
  have "(\<bar>a\<bar> div b = 0) = (\<bar>a\<bar> < b)"
    using assms pos_imp_zdiv_pos_iff [of b "\<bar>a\<bar>"] pos_imp_zdiv_nonneg_iff [of b "\<bar>a\<bar>"]
    by linarith
  with False assms show ?thesis by (simp add: sgn_if)
qed

lemma calculateCostPerFct_returns: "\<exists>c. calculateCostPerFct ctx = Inr c"
proof -
  obtain r where "calc_at ctx (50 * 1024) = Inr r"
    using calculateFctOutput_returns by blast
  then show ?thesis by (simp add: calculateCostPerFct_def)
qed

lemma calc_at_ethBurned:
  "ethBurned (projr (calc_at ctx s)) = (max (s - 160) 0 * 40 + 21000) * currentGasPrice ctx"
  by (simp add: calculateFctOutput_def Let_def bigint_div_def)

lemma calculateFctOutput_ethBurned:
  "ethBurned (projr (calculateFctOutput p)) =
     ((case calldataGasOverride p of Some g \<Rightarrow> g | None \<Rightarrow> max (dataSize p - 160) 0 * 40)
        + 21000) *
     (case gasPrice p of Some g \<Rightarrow> g | None \<Rightarrow> baseFee p)"
  by (simp add: calculateFctOutput_def Let_def bigint_div_def)

section \<open>Rounding to binary64\<close>

lemma pow2_less_imp:
  assumes "(2::rat) powi k < 2 powi m"
  shows "k < m"
proof (rule ccontr)
  assume "\<not> k < m"
  then have "m \<le> k" by simp
  then have "(2::rat) powi m \<le> 2 powi k"
    by (rule power_int_increasing) simp
  with assms show False by simp
qed

lemma bit_length_int_bounds:
  "0 < n \<Longrightarrow> 0 < bit_length n \<and> 2 ^ nat (bit_length n - 1) \<le> n \<and> n < 2 ^ nat (bit_length n)"
proof (induction n rule: bit_length.induct)
  case (1 n)
  show ?case
  proof (cases "n div 2 = 0")
    case True
    with "1.prems" have "n = 1" by linarith
    then show ?thesis
      by (simp add: bit_length.simps [of 1] bit_length.simps [of 0])
  next
    case False
    with "1.prems" have m: "0 < n div 2" by linarith
    define L where "L = bit_length (n div 2)"
    from "1.IH" [OF _ m] "1.prems"
    have ih: "0 < L" "2 ^ nat (L - 1) \<le> n div 2" "n div 2 < 2 ^ nat L"
      by (simp_all add: L_def)
    have bl: "bit_length n = L + 1"
      using "1.prems" by (subst bit_length.simps) (simp add: L_def)
    have "nat L = Suc (nat (L - 1))" using ih(1) by linarith
    then have e: "(2::int) ^ nat L = 2 * 2 ^ nat (L - 1)"
      by (simp only: power_Suc)
    have "2 * (n div 2) \<le> n" by simp
    with ih(2) e have lo: "2 ^ nat L \<le> n" by linarith
    have "nat (L + 1) = Suc (nat L)" using ih(1) by linarith
    then have e': "(2::int) ^ nat (L + 1) = 2 * 2 ^ nat L"
      by (simp only: power_Suc)
    have "n \<le> 2 * (n div 2) + 1" by linarith
    moreover have "2 * (n div 2) + 2 \<le> 2 * 2 ^ nat L" using ih(3) by linarith
    ultimately have hi: "n < 2 ^ nat (L + 1)" unfolding e' by linarith
    show ?thesis using ih(1) lo hi by (simp add: bl)
  qed
qed

lemma bit_length_bounds:
  assumes "0 < n"
  shows "0 < bit_length n"
    and "(2::rat) powi (bit_length n - 1) \<le> of_int n"
    and "rat_of_int n + 1 \<le> 2 powi (bit_length n)"
proof -
  note b = bit_length_int_bounds [OF assms]
  show pos: "0 < bit_length n" using b by simp
  have "rat_of_int (2 ^ nat (bit_length n - 1)) \<le> of_int n"
    using b by (intro of_int_le_iff [THEN iffD2]) simp
  then show "(2::rat) powi (bit_length n - 1) \<le> of_int n"
    using pos by (simp add: power_int_def)
  have "n + 1 \<le> 2 ^ nat (bit_length n)" using b by simp
  then have "rat_of_int (n + 1) \<le> of_int (2 ^ nat (bit_length n))"
    by (intro of_int_le_iff [THEN iffD2])
  then show "rat_of_int n + 1 \<le> 2 powi (bit_length n)"
    using pos by (simp add: power_int_def)
qed

lemma floor_log2_bounds_ge1:
  assumes "1 \<le> q"
  shows "2 powi (floor_log2 q) \<le> q \<and> q < 2 powi (floor_log2 q + 1)"
proof -
  have n: "0 < \<lfloor>q\<rfloor>" using assms by simp
  have fl: "floor_log2 q = bit_length \<lfloor>q\<rfloor> - 1"
    using assms by (simp add: floor_log2_def)
  note b = bit_length_bounds [OF n]
  have nq: "of_int \<lfloor>q\<rfloor> \<le> q" "q < of_int \<lfloor>q\<rfloor> + 1"
    using floor_correct [of q] by simp_all
  have "2 powi (bit_length \<lfloor>q\<rfloor> - 1) \<le> q"
    using b(2) nq(1) by (rule order_trans)
  moreover have "q < 2 powi (bit_length \<lfloor>q\<rfloor> - 1 + 1)"
    using nq(2) b(3) by simp
  ultimately show ?thesis unfolding fl by blast
qed

lemma floor_log2_bounds_lt1:
  assumes "0 < q" and "q < 1"
  shows "2 powi (floor_log2 q) \<le> q \<and> q < 2 powi (floor_log2 q + 1)"
proof -
  define x where "x = 1 / q"
  have x: "1 < x" using assms by (simp add: x_def)
  define n where "n = \<lceil>x\<rceil> - 1"
  have c2: "2 \<le> \<lceil>x\<rceil>" using x by (simp add: le_ceiling_iff)
  have n: "0 < n" using c2 by (simp add: n_def)
  define L where "L = bit_length n"
  have fl: "floor_log2 q = - L"
    using assms by (simp add: floor_log2_def n_def x_def L_def)
  note b = bit_length_bounds [OF n, folded L_def]
  have nn: "rat_of_int n = of_int \<lceil>x\<rceil> - 1" by (simp add: n_def)
  have nx: "rat_of_int n < x" "x \<le> rat_of_int n + 1"
    using ceiling_correct [of x] unfolding nn by simp_all
  have lo: "(2::rat) powi (L - 1) < x"
    using b(2) nx(1) by (rule le_less_trans)
  have hi: "x \<le> 2 powi L"
    using nx(2) b(3) by (rule order_trans)
  have q: "q = 1 / x" using assms by (simp add: x_def)
  have e1: "(2::rat) powi (- L) = 1 / 2 powi L"
    by (simp add: power_int_minus divide_inverse)
  have "- L + 1 = - (L - 1)" by simp
  then have e2: "(2::rat) powi (- L + 1) = 1 / 2 powi (L - 1)"
    by (simp only: power_int_minus divide_inverse mult_1)
  have "1 / 2 powi L \<le> 1 / x"
    using hi x by (intro divide_left_mono) simp_all
  then have A: "2 powi (- L) \<le> q"
    unfolding e1 q .
  have "1 / x < 1 / 2 powi (L - 1)"
    using lo x by (intro divide_strict_left_mono) simp_all
  then have B: "q < 2 powi (- L + 1)"
    unfolding e2 q .
  from A B show ?thesis unfolding fl by blast
qed

lemma floor_log2_bounds:
  assumes "0 < q"
  shows "2 powi (floor_log2 q) \<le> q \<and> q < 2 powi (floor_log2 q + 1)"
  using assms floor_log2_bounds_ge1 [of q] floor_log2_bounds_lt1 [of q]
  by (cases "1 \<le> q") simp_all

lemma floor_log2_unique:
  assumes "0 < q" and "2 powi k \<le> q" and "q < 2 powi (k + 1)"
  shows "floor_log2 q = k"
proof -
  from floor_log2_bounds [OF assms(1)]
  have b: "2 powi (floor_log2 q) \<le> q" "q < 2 powi (floor_log2 q + 1)" by simp_all
  have "(2::rat) powi k < 2 powi (floor_log2 q + 1)"
    using assms(2) b(2) by (rule le_less_trans)
  then have 1: "k < floor_log2 q + 1"
    by (rule pow2_less_imp)
  have "(2::rat) powi (floor_log2 q) < 2 powi (k + 1)"
    using b(1) assms(3) by (rule le_less_trans)
  then have 2: "floor_log2 q < k + 1"
    by (rule pow2_less_imp)
  from 1 2 show ?thesis by simp
qed

lemma floor_log2_mono:
  assumes "0 < a" and "a \<le> b"
  shows "floor_log2 a \<le> floor_log2 b"
proof -
  have "0 < b" using assms by simp
  from floor_log2_bounds [OF assms(1)] floor_log2_bounds [OF this] assms(2)
  have "(2::rat) powi (floor_log2 a) < 2 powi (floor_log2 b + 1)" by linarith
  then have "floor_log2 a < floor_log2 b + 1"
    by (rule pow2_less_imp)
  then show ?thesis by simp
qed

lemma round_half_even_bounds: "\<lfloor>q\<rfloor> \<le> round_half_even q \<and> round_half_even q \<le> \<lfloor>q\<rfloor> + 1"
  by (simp add: round_half_even_def Let_def)

lemma round_half_even_of_int [simp]: "round_half_even (of_int n) = n"
  by (simp add: round_half_even_def Let_def)

lemma round_half_even_mono:
  assumes "a \<le> b"
  shows "round_half_even a \<le> round_half_even b"
proof (cases "\<lfloor>a\<rfloor> = \<lfloor>b\<rfloor>")
  case True
  with assms show ?thesis
    by (auto simp add: round_half_even_def Let_def)
next
  case False
  have "\<lfloor>a\<rfloor> \<le> \<lfloor>b\<rfloor>" using assms by (rule floor_mono)
  with False have "\<lfloor>a\<rfloor> + 1 \<le> \<lfloor>b\<rfloor>" by simp
  with round_half_even_bounds [of a] round_half_even_bounds [of b]
  show ?thesis by linarith
qed

lemma pow2_pos [simp]: "0 < (2::rat) powi k"
  by (simp add: power_int_def)

lemma scaled_upper:
  assumes "0 < q" and "floor_log2 q - 52 \<le> e"
  shows "q / 2 powi e < 2 ^ 53"
proof -
  have "q < 2 powi (floor_log2 q + 1)"
    using floor_log2_bounds [OF assms(1)] by simp
  also have "\<dots> \<le> 2 powi (e + 53)"
    using assms(2) by (intro power_int_increasing) simp_all
  also have "\<dots> = 2 powi e * 2 ^ 53"
    by (simp add: power_int_add)
  finally show ?thesis
    by (simp add: pos_divide_less_eq mult.commute)
qed

lemma scaled_lower:
  assumes "0 < q" and "e = floor_log2 q - 52"
  shows "2 ^ 52 \<le> q / 2 powi e"
proof -
  have "(2::rat) powi e * 2 ^ 52 = 2 powi (e + 52)"
    by (simp add: power_int_add)
  also have "\<dots> = 2 powi (floor_log2 q)"
    using assms(2) by simp
  also have "\<dots> \<le> q"
    using floor_log2_bounds [OF assms(1)] by simp
  finally show ?thesis
    by (simp add: pos_le_divide_eq mult.commute)
qed

lemma binary64_pos:
  assumes "0 < q"
  shows "binary64 q = of_int (round_half_even (q / 2 powi exponent_of q)) * 2 powi exponent_of q"
  using assms by (simp add: binary64_def Let_def)

lemma mantissa_upper:
  assumes "0 < q"
  shows "round_half_even (q / 2 powi exponent_of q) \<le> 2 ^ 53"
proof -
  have "q / 2 powi exponent_of q \<le> of_int (2 ^ 53)"
    using scaled_upper [OF assms, of "exponent_of q"] assms
    by (simp add: exponent_of_def)
  then have "round_half_even (q / 2 powi exponent_of q) \<le> round_half_even (of_int (2 ^ 53))"
    by (rule round_half_even_mono)
  then show ?thesis by (simp only: round_half_even_of_int)
qed

lemma mantissa_lower:
  assumes "0 < q" and "- 1074 < exponent_of q"
  shows "2 ^ 52 \<le> round_half_even (q / 2 powi exponent_of q)"
proof -
  have "exponent_of q = floor_log2 q - 52"
    using assms by (simp add: exponent_of_def max_def split: if_splits)
  then have "of_int (2 ^ 52) \<le> q / 2 powi exponent_of q"
    using scaled_lower [OF assms(1), of "exponent_of q"] by simp
  then have "round_half_even (of_int (2 ^ 52)) \<le> round_half_even (q / 2 powi exponent_of q)"
    by (rule round_half_even_mono)
  then show ?thesis by (simp only: round_half_even_of_int)
qed

lemma exponent_of_mono:
  assumes "0 < a" and "a \<le> b"
  shows "exponent_of a \<le> exponent_of b"
  using floor_log2_mono [of a b] assms by (simp add: exponent_of_def)

lemma binary64_mono_pos:
  assumes "0 < a" and "a \<le> b"
  shows "binary64 a \<le> binary64 b"
proof -
  have b: "0 < b" using assms by simp
  have le: "exponent_of a \<le> exponent_of b" using assms by (rule exponent_of_mono)
  show ?thesis
  proof (cases "exponent_of a = exponent_of b")
    case True
    have "a / 2 powi exponent_of b \<le> b / 2 powi exponent_of b"
      using assms(2) by (simp add: divide_right_mono)
    then have "round_half_even (a / 2 powi exponent_of b) \<le> round_half_even (b / 2 powi exponent_of b)"
      by (rule round_half_even_mono)
    then have "rat_of_int (round_half_even (a / 2 powi exponent_of b)) * 2 powi exponent_of b
        \<le> of_int (round_half_even (b / 2 powi exponent_of b)) * 2 powi exponent_of b"
      by (intro mult_right_mono) simp_all
    then show ?thesis
      using True by (simp add: binary64_pos [OF assms(1)] binary64_pos [OF b])
  next
    case False
    with le have lt: "exponent_of a + 1 \<le> exponent_of b" by simp
    have "- 1074 \<le> exponent_of a" by (simp add: exponent_of_def)
    with lt have normal: "- 1074 < exponent_of b" by simp
    have "binary64 a \<le> of_int (2 ^ 53) * 2 powi exponent_of a"
      unfolding binary64_pos [OF assms(1)]
      using mantissa_upper [OF assms(1)]
      by (intro mult_right_mono) simp_all
    also have "\<dots> = 2 powi (exponent_of a + 1) * 2 ^ 52"
      by (simp add: power_int_add)
    also have "\<dots> \<le> 2 powi exponent_of b * 2 ^ 52"
      using lt by (intro mult_right_mono power_int_increasing) simp_all
    also have "\<dots> = of_int (2 ^ 52) * 2 powi exponent_of b"
      by simp
    also have "\<dots> \<le> binary64 b"
      unfolding binary64_pos [OF b]
      using mantissa_lower [OF b normal]
      by (intro mult_right_mono) simp_all
    finally show ?thesis .
  qed
qed

lemma binary64_zero [simp]: "binary64 0 = 0"
  by (simp add: binary64_def)

lemma exponent_of_minus [simp]: "exponent_of (- q) = exponent_of q"
  by (simp add: exponent_of_def)

lemma binary64_minus: "binary64 (- q) = - binary64 q"
  by (simp add: binary64_def Let_def)

lemma binary64_nonneg:
  assumes "0 \<le> q"
  shows "0 \<le> binary64 q"
proof (cases "q = 0")
  case True
  then show ?thesis by simp
next
  case False
  with assms have q: "0 < q" by simp
  have "0 \<le> \<lfloor>q / 2 powi exponent_of q\<rfloor>"
    using q by simp
  with round_half_even_bounds [of "q / 2 powi exponent_of q"]
  have "0 \<le> round_half_even (q / 2 powi exponent_of q)" by linarith
  then show ?thesis
    by (simp add: binary64_pos [OF q])
qed

lemma binary64_mono:
  assumes "a \<le> b"
  shows "binary64 a \<le> binary64 b"
proof -
  consider "0 < a" | "a \<le> 0" "0 \<le> b" | "b < 0" by linarith
  then show ?thesis
  proof cases
    case 1
    then show ?thesis using assms by (rule binary64_mono_pos)
  next
    case 2
    have "0 \<le> binary64 (- a)" using 2(1) by (intro binary64_nonneg) simp
    then have "binary64 a \<le> 0" by (simp add: binary64_minus)
    also have "0 \<le> binary64 b" using 2(2) by (rule binary64_nonneg)
    finally show ?thesis .
  next
    case 3
    have "binary64 (- b) \<le> binary64 (- a)"
      using 3 assms by (intro binary64_mono_pos) simp_all
    then show ?thesis by (simp add: binary64_minus)
  qed
qed

lemma binary64_eval:
  assumes "0 < q" and "2 powi k \<le> q" and "q < 2 powi (k + 1)"
  shows "binary64 q =
           of_int (round_half_even (q / 2 powi max (k - 52) (- 1074))) * 2 powi max (k - 52) (- 1074)"
  using binary64_pos [OF assms(1)] floor_log2_unique [OF assms]
  by (simp add: exponent_of_def abs_of_pos [OF assms(1)])

lemma binary64_21000: "binary64 21000 = 21000"
  by (subst binary64_eval [where k = 14])
    (simp_all add: power_int_minus round_half_even_def Let_def)

lemma binary64_one: "binary64 1 = 1"
  by (subst binary64_eval [where k = 0])
    (simp_all add: power_int_minus round_half_even_def Let_def)

lemma round_half_even_up:
  assumes "of_int n - 1 / 2 < q" and "q \<le> of_int n"
  shows "round_half_even q = n"
proof (cases "q = of_int n")
  case True
  then show ?thesis by simp
next
  case False
  have "\<lfloor>q\<rfloor> = n - 1"
    using assms False by (intro floor_unique) simp_all
  then show ?thesis
    using assms by (simp add: round_half_even_def Let_def)
qed

lemma binary64_just_below_one: "binary64 (999999999999999999 / 10 ^ 18) = 1"
proof -
  have "round_half_even (999999999999999999 / 10 ^ 18 / 2 powi max (- 1 - 52) (- 1074)) = 2 ^ 53"
    by (rule round_half_even_up) (simp_all add: power_int_minus)
  then show ?thesis
    by (subst binary64_eval [where k = "- 1"]) (simp_all add: power_int_minus)
qed

lemma fromRat_Finite_iff:
  "fromRat q = Finite d \<longleftrightarrow> d = binary64 q \<and> - (2 ^ 1024) < binary64 q \<and> binary64 q < 2 ^ 1024"
  by (auto simp add: fromRat_def Let_def)

lemma fromRat_zero: "fromRat 0 = Finite 0"
  by (simp add: fromRat_def)

lemma fromRat_21000: "fromRat 21000 = Finite 21000"
  by (simp add: fromRat_def binary64_21000)

lemma fromRat_one: "fromRat 1 = Finite 1"
  by (simp add: fromRat_def binary64_one)

lemma binary64_half: "binary64 (1 / 2) = 1 / 2"
  by (subst binary64_eval [where k = "- 1"])
    (simp_all add: power_int_minus round_half_even_def Let_def)

lemma fromRat_half: "fromRat (1 / 2) = Finite (1 / 2)"
  by (simp add: fromRat_def binary64_half)

lemma number_less_fromRat_ge:
  assumes m: "fromRat m = Finite m" and "m \<le> q"
  shows "\<not> number_less (fromRat q) (Finite m)"
proof -
  have bm: "binary64 m = m" "- (2 ^ 1024) < m"
    using m by (simp_all add: fromRat_Finite_iff)
  have ge: "m \<le> binary64 q"
    using binary64_mono [OF assms(2)] bm(1) by simp
  show ?thesis
    using ge bm(2) by (simp add: fromRat_def Let_def)
qed

lemma number_less_fromRat_le:
  assumes d: "fromRat d = Finite d" and "q \<le> d" and "d < m"
  shows "number_less (fromRat q) (Finite m)"
proof -
  have bd: "binary64 d = d" "d < 2 ^ 1024"
    using d by (simp_all add: fromRat_Finite_iff)
  have le: "binary64 q \<le> d"
    using binary64_mono [OF assms(2)] bd(1) by simp
  show ?thesis
    using le bd(2) assms(3) by (simp add: fromRat_def Let_def)
qed

section \<open>The size as a number\<close>

lemma binary64_of_int_pos:
  assumes "0 < n" and "n < 2 ^ 53"
  shows "binary64 (of_int n) = of_int n"
proof -
  define q :: rat where "q = of_int n"
  have q: "0 < q" using assms(1) by (simp add: q_def)
  define e where "e = exponent_of q"
  have "q < 2 powi 53"
  proof -
    have "rat_of_int n < of_int (2 ^ 53)" using assms(2) by (simp only: of_int_less_iff)
    then show ?thesis by (simp add: q_def)
  qed
  with floor_log2_bounds [OF q] have "(2::rat) powi floor_log2 q < 2 powi 53"
    by linarith
  then have "floor_log2 q < 53" by (rule pow2_less_imp)
  then have e: "e \<le> 0"
    using q by (simp add: e_def exponent_of_def abs_of_pos)
  define j where "j = nat (- e)"
  have ej: "e = - int j" using e by (simp add: j_def)
  have p: "(2::rat) powi e = 1 / 2 ^ j"
    unfolding ej by (simp add: power_int_minus divide_inverse)
  have scaled: "q / 2 powi e = of_int (n * 2 ^ j)"
    by (simp add: p q_def)
  have "round_half_even (q / 2 powi e) = n * 2 ^ j"
    unfolding scaled by (rule round_half_even_of_int)
  then have "binary64 q = of_int (n * 2 ^ j) * 2 powi e"
    using binary64_pos [OF q] by (simp add: e_def)
  also have "\<dots> = q" by (simp add: p q_def)
  finally show ?thesis by (simp add: q_def)
qed

lemma binary64_of_int:
  assumes "\<bar>n\<bar> < 2 ^ 53"
  shows "binary64 (of_int n) = of_int n"
proof -
  consider "0 < n" | "n = 0" | "n < 0" by linarith
  then show ?thesis
  proof cases
    case 1
    then show ?thesis using assms by (intro binary64_of_int_pos) simp_all
  next
    case 2
    then show ?thesis by simp
  next
    case 3
    then have "binary64 (of_int (- n)) = of_int (- n)"
      using assms by (intro binary64_of_int_pos) simp_all
    then have "binary64 (- rat_of_int n) = - of_int n" by simp
    then show ?thesis by (simp add: binary64_minus)
  qed
qed

lemma fromRat_of_int:
  assumes "\<bar>n\<bar> < 2 ^ 53"
  shows "fromRat (of_int n) = Finite (of_int n)"
proof -
  have "\<bar>rat_of_int n\<bar> < of_int (2 ^ 53)"
    using assms by (simp only: of_int_abs [symmetric] of_int_less_iff)
  then have "\<bar>rat_of_int n\<bar> < 2 ^ 53" by simp
  moreover have "(2::rat) ^ 53 < 2 ^ 1024" by simp
  ultimately have "- (2 ^ 1024) < rat_of_int n" "rat_of_int n < 2 ^ 1024"
    by linarith+
  then show ?thesis
    by (simp add: fromRat_def binary64_of_int [OF assms] Let_def)
qed


lemma BigInt_of_number_of_int: "BigInt_of_number (Finite (of_int k)) = Inr k"
  by (simp add: BigInt_of_number_def)

lemma binary64_nonpos:
  assumes "q \<le> 0"
  shows "binary64 q \<le> 0"
  using binary64_mono [OF assms] by simp

lemma calldataGas_of_size_whole:
  assumes "s \<le> 225179981368684"
  shows "calldataGas_of_size (Finite (of_int s)) = Inr (max (s - 160) 0 * 40)"
proof (cases "s \<le> 160")
  case True
  have "binary64 (of_int s - 160) \<le> 0"
    using True by (intro binary64_nonpos) simp
  then have "Math_max (fromRat (of_int s - 160)) (Finite 0) = Finite 0"
    by (simp add: fromRat_def Let_def max_def)
  then show ?thesis
    using True
    by (simp add: calldataGas_of_size_def Let_def fromRat_zero BigInt_of_number_def)
next
  case False
  define n where "n = s - 160"
  have n: "0 < n" "n * 40 < 2 ^ 53"
    using False assms by (simp_all add: n_def)
  have a: "\<bar>n\<bar> < 2 ^ 53" "\<bar>n * 40\<bar> < 2 ^ 53"
    using n by simp_all
  have "rat_of_int s - 160 = of_int n" by (simp add: n_def)
  then have minus: "fromRat (of_int s - 160) = Finite (of_int n)"
    using fromRat_of_int [OF a(1)] by simp
  have "rat_of_int n * 40 = of_int (n * 40)" by simp
  then have times: "fromRat (of_int n * 40) = Finite (of_int (n * 40))"
    using fromRat_of_int [OF a(2)] by simp
  have "max (rat_of_int n) 0 = of_int n" using n(1) by simp
  then have "number_times (Math_max (number_minus (Finite (of_int s)) (Finite 160)) (Finite 0))
      (Finite 40) = Finite (of_int (n * 40))"
    using minus times by simp
  then have "calldataGas_of_size (Finite (of_int s)) = BigInt_of_number (Finite (of_int (n * 40)))"
    by (simp only: calldataGas_of_size_def Let_def)
  then have "calldataGas_of_size (Finite (of_int s)) = Inr (n * 40)"
    by (simp only: BigInt_of_number_of_int)
  then show ?thesis using n(1) by (simp add: n_def)
qed

lemma round_half_even_down:
  assumes "of_int n \<le> q" and "q < of_int n + 1 / 2"
  shows "round_half_even q = n"
proof -
  have "\<lfloor>q\<rfloor> = n"
    using assms by (intro floor_unique) simp_all
  then show ?thesis
    using assms by (simp add: round_half_even_def Let_def)
qed

lemma binary64_160_01: "binary64 (16001 / 100) = 703731422241751 / 4398046511104"
proof -
  have "round_half_even (16001 / 100 / 2 powi max (7 - 52) (- 1074)) = 5629851377934008"
    by (rule round_half_even_down) (simp_all add: power_int_minus)
  then show ?thesis
    by (subst binary64_eval [where k = 7]) (simp_all add: power_int_minus)
qed

lemma binary64_0_01: "binary64 (43980465111 / 4398046511104) = 43980465111 / 4398046511104"
proof -
  have "round_half_even (43980465111 / 4398046511104 / 2 powi max (- 7 - 52) (- 1074))
      = 5764607523028992"
    by (rule round_half_even_down) (simp_all add: power_int_minus)
  then show ?thesis
    by (subst binary64_eval [where k = "- 7"]) (simp_all add: power_int_minus)
qed

lemma binary64_0_4: "binary64 (219902325555 / 549755813888) = 219902325555 / 549755813888"
proof -
  have "round_half_even (219902325555 / 549755813888 / 2 powi max (- 2 - 52) (- 1074))
      = 7205759403786240"
    by (rule round_half_even_down) (simp_all add: power_int_minus)
  then show ?thesis
    by (subst binary64_eval [where k = "- 2"]) (simp_all add: power_int_minus)
qed

text \<open>
  Sizes on which the source throws: the literal \<open>160.01\<close> (the product is the binary64
  value 0.3999999999996362, not a whole number), \<open>NaN\<close> and \<open>Infinity\<close>.
\<close>

lemma calldataGas_of_size_throws:
  "calldataGas_of_size (fromRat (16001 / 100)) = Inl RangeError"
  "calldataGas_of_size NaN = Inl RangeError"
  "calldataGas_of_size PosInfinity = Inl RangeError"
proof -
  have "\<lfloor>219902325555 / 549755813888 :: rat\<rfloor> = 0"
    by (rule floor_unique) simp_all
  then show "calldataGas_of_size (fromRat (16001 / 100)) = Inl RangeError"
    by (simp add: calldataGas_of_size_def Let_def fromRat_def binary64_160_01
        binary64_0_01 binary64_0_4 BigInt_of_number_def)
  show "calldataGas_of_size NaN = Inl RangeError"
    by (simp add: calldataGas_of_size_def Let_def BigInt_of_number_def)
  show "calldataGas_of_size PosInfinity = Inl RangeError"
    by (simp add: calldataGas_of_size_def Let_def BigInt_of_number_def)
qed

text \<open>
  Beyond the exact range the source rounds: at \<open>2^53 - 1\<close> bytes it gives
  360287970189633216 where the integer product is 360287970189633240.
\<close>

lemma binary64_near_2_53: "binary64 9007199254740831 = 9007199254740831"
  using binary64_of_int [of 9007199254740831] by simp

lemma binary64_product_rounds: "binary64 360287970189633240 = 360287970189633216"
proof -
  have "round_half_even (360287970189633240 / 2 powi max (58 - 52) (- 1074))
      = 5629499534213019"
    by (rule round_half_even_down) (simp_all add: power_int_minus)
  then show ?thesis
    by (subst binary64_eval [where k = 58]) (simp_all add: power_int_minus)
qed

lemma calldataGas_of_size_rounds:
  "calldataGas_of_size (Finite 9007199254740991) = Inr 360287970189633216"
  by (simp add: calldataGas_of_size_def Let_def fromRat_def binary64_near_2_53
      binary64_product_rounds BigInt_of_number_def)

section \<open>A worked projection\<close>

text \<open>
  The rounding model on a worked case: a size of 25600 bytes gives 1017600 calldata gas,
  1038600 total gas and an efficiency of \<open>6894592150509425 / 2^46\<close>, which is the
  binary64 value 97.97804737146159 that the two rounded operations of the source produce.
\<close>

lemma binary64_1017600: "binary64 1017600 = 1017600"
  by (subst binary64_eval [where k = 19])
    (simp_all add: power_int_minus round_half_even_def Let_def)

lemma binary64_1038600: "binary64 1038600 = 1038600"
  by (subst binary64_eval [where k = 19])
    (simp_all add: power_int_minus round_half_even_def Let_def)

lemma binary64_gas_ratio:
  "binary64 (1696 / 1731) = 275783686020377 / 281474976710656"
proof -
  have "round_half_even (1696 / 1731 / 2 powi max (- 1 - 52) (- 1074))
      = 8825077952652064"
    by (rule round_half_even_up) (simp_all add: power_int_minus)
  then show ?thesis
    by (subst binary64_eval [where k = "- 1"]) (simp_all add: power_int_minus)
qed

lemma binary64_efficiency:
  "binary64 (6894592150509425 / 70368744177664) = 6894592150509425 / 70368744177664"
proof -
  have "round_half_even (6894592150509425 / 70368744177664 / 2 powi max (6 - 52) (- 1074))
      = 6894592150509425"
    by (rule round_half_even_up) (simp_all add: power_int_minus)
  then show ?thesis
    by (subst binary64_eval [where k = 6]) (simp_all add: power_int_minus)
qed

lemma calculateFctOutput_25600:
  "calculateFctOutput
     \<lparr>dataSize = 25600, baseFee = 1, mintRate = 1, calldataGasOverride = None,
      gasPrice = None\<rparr> =
   Inr \<lparr>calldataGas = 1017600, fctMinted = 1017600,
        efficiency = Finite (6894592150509425 / 70368744177664), totalGas = 1038600,
        ethBurned = 1038600, costPerFct = 1020636792452830188\<rparr>"
proof -
  have "number_times (number_divide (Number_of_bigint 1017600) (Number_of_bigint 1038600))
      (Finite 100) = Finite (6894592150509425 / 70368744177664)"
    by (simp add: Number_of_bigint_def fromRat_def binary64_1017600 binary64_1038600
        binary64_gas_ratio binary64_efficiency)
  then show ?thesis
    by (simp add: calculateFctOutput_def Let_def bigint_div_def)
qed

section \<open>Cost per FCT and zero yield\<close>

text \<open>
  C3 (as amended). For every whole-number size up to 225179981368684 bytes (where the
  model is the source exactly) the call returns: the division by the yield is the only
  operation that could throw there, and it never does. Whenever the call returns, the
  guarded division of the source gave the cost per FCT without throwing, and a zero yield
  gives a zero cost per FCT. The converse fails, because the bigint division truncates:
  the cost per FCT is zero exactly when the yield is not positive or
  \<open>|ethBurned| * 10^18\<close> is smaller than the yield.
\<close>

theorem costPerFct_zero_characterised:
  "(dataSize p \<le> 225179981368684 \<longrightarrow> (\<exists>r. calculateFctOutput p = Inr r)) \<and>
   (\<forall>r. calculateFctOutput p = Inr r \<longrightarrow>
      (if 0 < fctMinted r then bigint_div (ethBurned r * 10 ^ 18) (fctMinted r) else Inr 0)
        = Inr (costPerFct r) \<and>
      (fctMinted r = 0 \<longrightarrow> costPerFct r = 0) \<and>
      (costPerFct r = 0 \<longleftrightarrow>
         fctMinted r \<le> 0 \<or> \<bar>ethBurned r\<bar> * 10 ^ 18 < fctMinted r))"
proof -
  have returned: "\<exists>r. calculateFctOutput p = Inr r"
    by (rule calculateFctOutput_returns)
  have fields: "(if 0 < fctMinted r then bigint_div (ethBurned r * 10 ^ 18) (fctMinted r)
           else Inr 0) = Inr (costPerFct r) \<and>
      (fctMinted r = 0 \<longrightarrow> costPerFct r = 0) \<and>
      (costPerFct r = 0 \<longleftrightarrow>
         fctMinted r \<le> 0 \<or> \<bar>ethBurned r\<bar> * 10 ^ 18 < fctMinted r)"
    if r: "calculateFctOutput p = Inr r" for r
  proof -
    have c: "costPerFct r =
        (if 0 < fctMinted r
         then sgn (ethBurned r * 10 ^ 18) * sgn (fctMinted r) *
                (\<bar>ethBurned r * 10 ^ 18\<bar> div \<bar>fctMinted r\<bar>)
         else 0)"
      by (rule calc_fields(5) [OF r])
    have division: "(if 0 < fctMinted r
           then bigint_div (ethBurned r * 10 ^ 18) (fctMinted r) else Inr 0)
         = Inr (costPerFct r)"
      using c by (simp add: bigint_div_def)
    have zero: "costPerFct r = 0 \<longleftrightarrow>
        fctMinted r \<le> 0 \<or> \<bar>ethBurned r\<bar> * 10 ^ 18 < fctMinted r"
    proof (cases "0 < fctMinted r")
      case True
      then show ?thesis
        using bigint_quotient_zero_iff [OF True, of "ethBurned r * 10 ^ 18"] c
        by (simp add: abs_mult)
    next
      case False
      then show ?thesis using c by simp
    qed
    have "fctMinted r = 0 \<longrightarrow> costPerFct r = 0"
      using c by simp
    with division zero show ?thesis by blast
  qed
  from returned fields show ?thesis by blast
qed

theorem costPerFct_zero_characterised_witness:
  "\<exists>r. calculateFctOutput
          \<lparr>dataSize = 100, baseFee = 7, mintRate = 5, calldataGasOverride = None,
           gasPrice = Some 3\<rparr> = Inr r \<and>
       fctMinted r = 0 \<and> costPerFct r = 0"
proof -
  let ?p = "\<lparr>dataSize = 100, baseFee = 7, mintRate = 5, calldataGasOverride = None,
             gasPrice = Some 3\<rparr>"
  have in_range: "dataSize ?p \<le> 225179981368684" by simp
  obtain r where r: "calculateFctOutput ?p = Inr r"
    using costPerFct_zero_characterised [of ?p] in_range by blast
  have z: "fctMinted r = 0 \<longrightarrow> costPerFct r = 0"
    using costPerFct_zero_characterised [of ?p] r by blast
  have "fctMinted r = 0" using calc_fields(1,3) [OF r] by simp
  with r z show ?thesis by blast
qed

text \<open>
  C3 as stated fails: at 1 KiB, a base fee of 1 gwei and a mint rate of \<open>2 * 10^18\<close> the
  yield is positive and the cost per FCT is zero.
\<close>

theorem costPerFct_zero_iff_counterexample:
  "\<not> isl (calculateFctOutput
            \<lparr>dataSize = 1024, baseFee = 1000000000, mintRate = 2000000000000000000,
             calldataGasOverride = None, gasPrice = None\<rparr>) \<and>
   costPerFct (projr (calculateFctOutput
            \<lparr>dataSize = 1024, baseFee = 1000000000, mintRate = 2000000000000000000,
             calldataGasOverride = None, gasPrice = None\<rparr>)) = 0 \<and>
   fctMinted (projr (calculateFctOutput
            \<lparr>dataSize = 1024, baseFee = 1000000000, mintRate = 2000000000000000000,
             calldataGasOverride = None, gasPrice = None\<rparr>)) \<noteq> 0"
  by (simp add: calculateFctOutput_def Let_def bigint_div_def)

section \<open>Monotonicity of the projection\<close>

text \<open>
  C5 (as amended). With the same conditions and a non-negative base fee, mint rate and gas
  price (the invariant of the runtime context: monetary fields are non-negative), a larger
  size never costs less and never yields less.
\<close>

theorem calculateFctOutput_monotone:
  assumes "s1 < s2"
    and "0 \<le> baseFee p" and "0 \<le> mintRate p"
    and "\<forall>g. gasPrice p = Some g \<longrightarrow> 0 \<le> g"
    and "calculateFctOutput (p\<lparr>dataSize := s1\<rparr>) = Inr r1"
    and "calculateFctOutput (p\<lparr>dataSize := s2\<rparr>) = Inr r2"
  shows "ethBurned r1 \<le> ethBurned r2 \<and> fctMinted r1 \<le> fctMinted r2"
proof -
  have cg: "calldataGas r1 \<le> calldataGas r2"
    using calc_fields(1) [OF assms(5)] calc_fields(1) [OF assms(6)] assms(1)
    by (simp split: option.splits)
  have gp: "0 \<le> (case gasPrice p of Some g \<Rightarrow> g | None \<Rightarrow> baseFee p)"
    using assms(2,4) by (simp split: option.splits)
  have "ethBurned r1 \<le> ethBurned r2"
    using calc_fields(2,4) [OF assms(5)] calc_fields(2,4) [OF assms(6)] cg gp
    by (simp add: mult_right_mono split: option.splits)
  moreover have "fctMinted r1 \<le> fctMinted r2"
    using calc_fields(3) [OF assms(5)] calc_fields(3) [OF assms(6)] cg assms(2,3)
    by (simp add: mult_right_mono)
  ultimately show ?thesis by simp
qed

theorem calculateFctOutput_monotone_witness:
  "\<exists>r1 r2.
     calculateFctOutput
       \<lparr>dataSize = 1000, baseFee = 7, mintRate = 5, calldataGasOverride = None,
        gasPrice = Some 9\<rparr> = Inr r1 \<and>
     calculateFctOutput
       \<lparr>dataSize = 2000, baseFee = 7, mintRate = 5, calldataGasOverride = None,
        gasPrice = Some 9\<rparr> = Inr r2 \<and>
     ethBurned r1 \<le> ethBurned r2 \<and> fctMinted r1 \<le> fctMinted r2"
proof -
  let ?p = "\<lparr>dataSize = 0, baseFee = 7, mintRate = 5, calldataGasOverride = None,
             gasPrice = Some (9::int)\<rparr>"
  obtain r1 where r1: "calculateFctOutput (?p\<lparr>dataSize := 1000\<rparr>) = Inr r1"
    using calculateFctOutput_returns by blast
  obtain r2 where r2: "calculateFctOutput (?p\<lparr>dataSize := 2000\<rparr>) = Inr r2"
    using calculateFctOutput_returns by blast
  have "ethBurned r1 \<le> ethBurned r2 \<and> fctMinted r1 \<le> fctMinted r2"
    using calculateFctOutput_monotone [of 1000 2000 ?p r1 r2] r1 r2 by simp
  with r1 r2 show ?thesis by simp
qed

text \<open>
  C5 as stated fails: the calculator does not check signs. With a gas price of \<open>-7\<close> the
  cost falls from \<open>-382200\<close> at 1000 bytes to \<open>-662200\<close> at 2000 bytes; with a base
  fee of \<open>-7\<close>, or a mint rate of \<open>-5\<close>, the yield falls from \<open>-1176000\<close> to
  \<open>-2576000\<close>.
\<close>

theorem calculateFctOutput_monotone_counterexample:
  "ethBurned (projr (calculateFctOutput
      \<lparr>dataSize = 1000, baseFee = 7, mintRate = 5, calldataGasOverride = None,
       gasPrice = Some (- 7)\<rparr>)) = - 382200 \<and>
   ethBurned (projr (calculateFctOutput
      \<lparr>dataSize = 2000, baseFee = 7, mintRate = 5, calldataGasOverride = None,
       gasPrice = Some (- 7)\<rparr>)) = - 662200 \<and>
   fctMinted (projr (calculateFctOutput
      \<lparr>dataSize = 1000, baseFee = - 7, mintRate = 5, calldataGasOverride = None,
       gasPrice = Some 9\<rparr>)) = - 1176000 \<and>
   fctMinted (projr (calculateFctOutput
      \<lparr>dataSize = 2000, baseFee = - 7, mintRate = 5, calldataGasOverride = None,
       gasPrice = Some 9\<rparr>)) = - 2576000 \<and>
   fctMinted (projr (calculateFctOutput
      \<lparr>dataSize = 1000, baseFee = 7, mintRate = - 5, calldataGasOverride = None,
       gasPrice = Some 9\<rparr>)) = - 1176000 \<and>
   fctMinted (projr (calculateFctOutput
      \<lparr>dataSize = 2000, baseFee = 7, mintRate = - 5, calldataGasOverride = None,
       gasPrice = Some 9\<rparr>)) = - 2576000"
  by (simp add: calculateFctOutput_def Let_def bigint_div_def)

section \<open>Sizes at or below the fixed overhead\<close>

text \<open>
  C10 (as amended). When no \<open>calldataGasOverride\<close> is passed, every size of at most 160
  bytes gives zero calldata gas, zero yield, zero cost per FCT and zero efficiency, and
  still burns 21000 times the effective gas price; the call returns.
\<close>

theorem below_overhead_mines_nothing:
  assumes "dataSize p \<le> 160"
    and "calldataGasOverride p = None"
  shows "\<exists>r. calculateFctOutput p = Inr r \<and>
           calldataGas r = 0 \<and> fctMinted r = 0 \<and> costPerFct r = 0 \<and>
           efficiency r = Finite 0 \<and>
           ethBurned r = 21000 * (case gasPrice p of Some g \<Rightarrow> g | None \<Rightarrow> baseFee p)"
  using assms
  by (simp add: calculateFctOutput_def Let_def fromRat_21000 fromRat_zero
      Number_of_bigint_def max_def)

theorem below_overhead_mines_nothing_witness:
  "\<exists>r. calculateFctOutput
          \<lparr>dataSize = 160, baseFee = 7, mintRate = 5, calldataGasOverride = None,
           gasPrice = None\<rparr> = Inr r \<and>
       calldataGas r = 0 \<and> fctMinted r = 0 \<and> costPerFct r = 0 \<and>
       efficiency r = Finite 0 \<and> ethBurned r = 147000"
  using below_overhead_mines_nothing
    [of "\<lparr>dataSize = 160, baseFee = 7, mintRate = 5, calldataGasOverride = None,
          gasPrice = None\<rparr>"]
  by simp

text \<open>
  C10 as stated fails when the caller passes \<open>calldataGasOverride\<close>: the override replaces
  the gas computed from the size, so calldata gas and yield are not zero.
\<close>

theorem below_overhead_override_counterexample:
  "calldataGas (projr (calculateFctOutput
      \<lparr>dataSize = 100, baseFee = 7, mintRate = 5, calldataGasOverride = Some 40,
       gasPrice = None\<rparr>)) = 40 \<and>
   fctMinted (projr (calculateFctOutput
      \<lparr>dataSize = 100, baseFee = 7, mintRate = 5, calldataGasOverride = Some 40,
       gasPrice = None\<rparr>)) = 1400"
  by (simp add: calculateFctOutput_def Let_def bigint_div_def)

section \<open>Rule engine\<close>

lemma promise_all_resolved:
  "\<forall>x\<in>set xs. \<exists>b. x = Inr b \<Longrightarrow> promise_all xs = Inr (map projr xs)"
  by (induction xs) auto

text \<open>
  C6. With no rules the engine passes. With rules that all resolve, the engine's result is
  the conjunction of the rules' results on the same context.
\<close>

theorem evaluateRules_is_conjunction:
  assumes "\<forall>rule\<in>set rules. \<exists>b. rule ctx = Inr b"
  shows "evaluateRules [] ctx = Inr True \<and>
         evaluateRules rules ctx = Inr (\<forall>rule\<in>set rules. rule ctx = Inr True)"
proof -
  have "\<forall>x\<in>set (map (\<lambda>rule. rule ctx) rules). \<exists>b. x = Inr b"
    using assms by simp
  then have pa: "promise_all (map (\<lambda>rule. rule ctx) rules)
      = Inr (map projr (map (\<lambda>rule. rule ctx) rules))"
    by (rule promise_all_resolved)
  have "list_all (\<lambda>result. result = True) (map projr (map (\<lambda>rule. rule ctx) rules))
      = (\<forall>rule\<in>set rules. rule ctx = Inr True)"
    using assms by (fastforce simp add: list_all_iff)
  with pa show ?thesis by (simp add: evaluateRules_def)
qed

theorem evaluateRules_is_conjunction_witness:
  "evaluateRules [budgetRule (Finite 1), arbitrageRule False]
     \<lparr>currentGasPrice = 1, currentBaseFee = 1, currentMintRate = 1, dexSpotPrice = None,
      sessionSpent = 0, sessionMined = 0, timestamp = 0, ethPriceUsd = Finite 3500\<rparr>
   = Inr False"
proof -
  let ?ctx = "\<lparr>currentGasPrice = 1, currentBaseFee = 1, currentMintRate = 1,
      dexSpotPrice = None, sessionSpent = 0, sessionMined = 0, timestamp = 0,
      ethPriceUsd = Finite 3500\<rparr>"
  have a: "arbitrageRule False ?ctx = Inr False"
    by (simp add: arbitrageRule_def)
  have b: "\<exists>b. budgetRule (Finite 1) ?ctx = Inr b"
    by (simp add: budgetRule_def Let_def)
  have "\<forall>rule\<in>set [budgetRule (Finite 1), arbitrageRule False]. \<exists>b. rule ?ctx = Inr b"
    using a b by auto
  from evaluateRules_is_conjunction [OF this] a show ?thesis
    by simp
qed

text \<open>
  C8 (as amended). The rule never throws and returns the comparison of
  \<open>Number(formatEther(sessionSpent))\<close>, the spend in ETH rounded to binary64, with the
  budget. For a budget that is a finite binary64 value it passes if and only if the rounded
  spend is strictly below the budget. So it passes only if the spend itself is strictly
  below the budget, and fails at the boundary; it fails for every spend that rounds to the
  budget, also one below it; and it passes whenever the spend is at most some binary64
  value that is strictly below the budget.
\<close>

theorem budgetRule_characterised:
  assumes "fromRat maxEth = Finite maxEth"
  shows "budgetRule budget ctx =
           Inr (number_less (Number_formatEther (sessionSpent ctx)) budget) \<and>
         (\<exists>pass. budgetRule (Finite maxEth) ctx = Inr pass \<and>
            (pass \<longleftrightarrow> binary64 (of_int (sessionSpent ctx) / 10 ^ 18) < maxEth) \<and>
            (pass \<longrightarrow> of_int (sessionSpent ctx) / 10 ^ 18 < maxEth) \<and>
            (of_int (sessionSpent ctx) / 10 ^ 18 = maxEth \<longrightarrow> \<not> pass) \<and>
            (binary64 (of_int (sessionSpent ctx) / 10 ^ 18) = maxEth \<longrightarrow> \<not> pass) \<and>
            (\<forall>d. fromRat d = Finite d \<and> of_int (sessionSpent ctx) / 10 ^ 18 \<le> d \<and>
                 d < maxEth \<longrightarrow> pass))"
proof -
  define spentEth :: rat where "spentEth = of_int (sessionSpent ctx) / 10 ^ 18"
  define pass where "pass = number_less (fromRat spentEth) (Finite maxEth)"
  have general: "budgetRule budget ctx =
      Inr (number_less (Number_formatEther (sessionSpent ctx)) budget)"
    by (simp add: budgetRule_def Let_def)
  have r: "budgetRule (Finite maxEth) ctx = Inr pass"
    by (simp add: budgetRule_def Number_formatEther_def Let_def pass_def spentEth_def)
  have m: "- (2 ^ 1024) < maxEth" "maxEth < 2 ^ 1024"
    using assms by (simp_all add: fromRat_Finite_iff)
  have rounded: "pass \<longleftrightarrow> binary64 spentEth < maxEth"
    using m by (simp add: pass_def fromRat_def Let_def)
  have 1: "pass \<longrightarrow> spentEth < maxEth"
  proof (rule impI, rule ccontr)
    assume "pass" and "\<not> spentEth < maxEth"
    then have "maxEth \<le> spentEth" by simp
    from number_less_fromRat_ge [OF assms this] \<open>pass\<close> show False
      by (simp add: pass_def)
  qed
  have 2: "\<forall>d. fromRat d = Finite d \<and> spentEth \<le> d \<and> d < maxEth \<longrightarrow> pass"
    using number_less_fromRat_le [of _ spentEth maxEth] by (auto simp add: pass_def)
  have 3: "binary64 spentEth = maxEth \<longrightarrow> \<not> pass"
    using rounded by simp
  have 4: "spentEth = maxEth \<longrightarrow> \<not> pass"
    using 1 by auto
  from general r rounded 1 2 3 4 show ?thesis
    unfolding spentEth_def by blast
qed

theorem budgetRule_characterised_witness:
  "budgetRule (Finite 1)
     \<lparr>currentGasPrice = 1000000000, currentBaseFee = 1000000000, currentMintRate = 1,
      dexSpotPrice = None, sessionSpent = 500000000000000000, sessionMined = 0,
      timestamp = 0, ethPriceUsd = Finite 3500\<rparr> = Inr True"
proof -
  let ?ctx = "\<lparr>currentGasPrice = 1000000000, currentBaseFee = 1000000000,
      currentMintRate = 1, dexSpotPrice = None, sessionSpent = 500000000000000000,
      sessionMined = 0, timestamp = 0, ethPriceUsd = Finite 3500\<rparr>"
  obtain pass where r: "budgetRule (Finite 1) ?ctx = Inr pass"
    and p: "\<forall>d. fromRat d = Finite d \<and> of_int (sessionSpent ?ctx) / 10 ^ 18 \<le> d \<and> d < 1
              \<longrightarrow> pass"
    using budgetRule_characterised [OF fromRat_one, of "Finite 1" ?ctx] by blast
  have "pass" using p fromRat_half by (auto dest!: spec [of _ "1 / 2"])
  with r show ?thesis by simp
qed

text \<open>
  C8 as stated fails: with a budget of 1 ETH and a spend of 1 ETH minus 1 wei the spend is
  strictly below the budget, but its binary64 value is 1 and the rule fails.
\<close>

theorem budgetRule_rounding_counterexample:
  "budgetRule (Finite 1)
     \<lparr>currentGasPrice = 1000000000, currentBaseFee = 1000000000, currentMintRate = 1,
      dexSpotPrice = None, sessionSpent = 999999999999999999, sessionMined = 0,
      timestamp = 0, ethPriceUsd = Finite 3500\<rparr> = Inr False \<and>
   (999999999999999999 :: int) < 1 * 10 ^ 18"
proof -
  have "Number_formatEther 999999999999999999 = Finite 1"
    using binary64_just_below_one by (simp add: Number_formatEther_def fromRat_def)
  then show ?thesis
    by (simp add: budgetRule_def Let_def)
qed

text \<open>
  C9 (as amended). The arbitrage rule never throws, and it passes exactly when the miner
  runs on mainnet, a non-zero spot price is present and the projected cost per FCT is
  strictly below it. Without a spot price it returns false.
\<close>

theorem arbitrageRule_characterised:
  "arbitrageRule isMainnet ctx =
     Inr (isMainnet \<and>
          (\<exists>spot cost. dexSpotPrice ctx = Some spot \<and> spot \<noteq> 0 \<and>
             calculateCostPerFct ctx = Inr cost \<and> cost < spot)) \<and>
   (dexSpotPrice ctx = None \<longrightarrow> arbitrageRule isMainnet ctx = Inr False)"
proof -
  obtain c where c: "calculateCostPerFct ctx = Inr c"
    using calculateCostPerFct_returns by blast
  show ?thesis
    by (cases "dexSpotPrice ctx")
      (auto simp add: arbitrageRule_def falsy_def c bigint_div_def Let_def)
qed

theorem arbitrageRule_characterised_witness:
  "arbitrageRule True
     \<lparr>currentGasPrice = 1, currentBaseFee = 1, currentMintRate = 1, dexSpotPrice = None,
      sessionSpent = 0, sessionMined = 0, timestamp = 0, ethPriceUsd = Finite 3500\<rparr>
   = Inr False"
  using arbitrageRule_characterised
    [of True "\<lparr>currentGasPrice = 1, currentBaseFee = 1, currentMintRate = 1,
      dexSpotPrice = None, sessionSpent = 0, sessionMined = 0, timestamp = 0,
      ethPriceUsd = Finite 3500\<rparr>"]
  by simp

text \<open>
  C9 as stated fails off mainnet: with a spot price of 2 ETH per FCT present and a
  projected cost of about 1.01 ETH per FCT, the rule still returns false.
\<close>

theorem arbitrageRule_testnet_counterexample:
  "arbitrageRule False
     \<lparr>currentGasPrice = 1, currentBaseFee = 1, currentMintRate = 1,
      dexSpotPrice = Some 2000000000000000000, sessionSpent = 0, sessionMined = 0,
      timestamp = 0, ethPriceUsd = Finite 3500\<rparr> = Inr False \<and>
   calculateCostPerFct
     \<lparr>currentGasPrice = 1, currentBaseFee = 1, currentMintRate = 1,
      dexSpotPrice = Some 2000000000000000000, sessionSpent = 0, sessionMined = 0,
      timestamp = 0, ethPriceUsd = Finite 3500\<rparr> = Inr 1010286050156739811"
  by (simp add: arbitrageRule_def calculateCostPerFct_def calculateFctOutput_def Let_def
      bigint_div_def falsy_def)

section \<open>Size optimizer\<close>

lemma budget_search_result:
  assumes "b < ethBurned (projr (calc_at ctx (high + 1)))"
  shows "\<exists>r. budget_search ctx b low high optimal = Inr r \<and>
           (r = optimal \<and> (low \<le> high \<longrightarrow> b < ethBurned (projr (calc_at ctx low))) \<or>
            low \<le> r \<and> r \<le> high \<and> ethBurned (projr (calc_at ctx r)) \<le> b \<and>
              b < ethBurned (projr (calc_at ctx (r + 1))))"
  using assms
proof (induction ctx b low high optimal rule: budget_search.induct)
  case (1 ctx b low high optimal)
  show ?case
  proof (cases "low \<le> high")
    case False
    then show ?thesis by (subst budget_search.simps) simp
  next
    case True
    define mid where "mid = (low + high) div 2"
    have mid: "low \<le> mid" "mid \<le> high"
      using True by (simp_all add: mid_def)
    obtain calc where calc: "calc_at ctx mid = Inr calc"
      using calculateFctOutput_returns by blast
    then have cost: "ethBurned (projr (calc_at ctx mid)) = ethBurned calc"
      by simp
    show ?thesis
    proof (cases "ethBurned calc \<le> b")
      case fits: True
      have unfold: "budget_search ctx b low high optimal = budget_search ctx b (mid + 1) high mid"
        by (subst budget_search.simps) (simp add: True mid_def [symmetric] calc fits)
      obtain r where r: "budget_search ctx b (mid + 1) high mid = Inr r"
        and alt: "r = mid \<and> (mid + 1 \<le> high \<longrightarrow> b < ethBurned (projr (calc_at ctx (mid + 1)))) \<or>
            mid + 1 \<le> r \<and> r \<le> high \<and> ethBurned (projr (calc_at ctx r)) \<le> b \<and>
              b < ethBurned (projr (calc_at ctx (r + 1)))"
        using "1.IH"(1) [OF True mid_def calc fits "1.prems"] by blast
      from alt show ?thesis
      proof
        assume a: "r = mid \<and> (mid + 1 \<le> high \<longrightarrow> b < ethBurned (projr (calc_at ctx (mid + 1))))"
        have "b < ethBurned (projr (calc_at ctx (mid + 1)))"
        proof (cases "mid + 1 \<le> high")
          case True
          with a show ?thesis by blast
        next
          case False
          with mid have "mid = high" by simp
          with "1.prems" show ?thesis by simp
        qed
        with a mid cost fits unfold r show ?thesis by auto
      next
        assume "mid + 1 \<le> r \<and> r \<le> high \<and> ethBurned (projr (calc_at ctx r)) \<le> b \<and>
              b < ethBurned (projr (calc_at ctx (r + 1)))"
        with mid unfold r show ?thesis by auto
      qed
    next
      case over: False
      have unfold: "budget_search ctx b low high optimal = budget_search ctx b low (mid - 1) optimal"
        by (subst budget_search.simps) (simp add: True mid_def [symmetric] calc over)
      have pre: "b < ethBurned (projr (calc_at ctx (mid - 1 + 1)))"
        using over cost by simp
      obtain r where r: "budget_search ctx b low (mid - 1) optimal = Inr r"
        and alt: "r = optimal \<and> (low \<le> mid - 1 \<longrightarrow> b < ethBurned (projr (calc_at ctx low))) \<or>
            low \<le> r \<and> r \<le> mid - 1 \<and> ethBurned (projr (calc_at ctx r)) \<le> b \<and>
              b < ethBurned (projr (calc_at ctx (r + 1)))"
        using "1.IH"(2) [OF True mid_def calc over pre] by blast
      from alt show ?thesis
      proof
        assume a: "r = optimal \<and> (low \<le> mid - 1 \<longrightarrow> b < ethBurned (projr (calc_at ctx low)))"
        have "b < ethBurned (projr (calc_at ctx low))"
        proof (cases "low \<le> mid - 1")
          case True
          with a show ?thesis by blast
        next
          case False
          with mid have "low = mid" by simp
          with over cost show ?thesis by simp
        qed
        with a unfold r show ?thesis by auto
      next
        assume "low \<le> r \<and> r \<le> mid - 1 \<and> ethBurned (projr (calc_at ctx r)) \<le> b \<and>
              b < ethBurned (projr (calc_at ctx (r + 1)))"
        with mid unfold r show ?thesis by auto
      qed
    qed
  qed
qed


lemma projected_cost_mono:
  assumes "0 \<le> currentGasPrice ctx" and "s \<le> t"
  shows "ethBurned (projr (calc_at ctx s)) \<le> ethBurned (projr (calc_at ctx t))"
  using assms by (simp add: calc_at_ethBurned mult_right_mono)

text \<open>
  What the budget block returns when it is entered: the next larger size is always over
  the budget, and the returned size is within the budget exactly when 1 KiB is; when even
  1 KiB is over the budget the block returns 1 KiB.
\<close>

lemma budget_block_result:
  assumes "0 < b" and "b < ethBurned (projr (calc_at ctx maxSize))"
  shows "\<exists>r. budget_block ctx maxSize (Some b) = Inr (Some r) \<and>
           b < ethBurned (projr (calc_at ctx (r + 1))) \<and>
           (if ethBurned (projr (calc_at ctx 1024)) \<le> b
            then 1024 \<le> r \<and> r < maxSize \<and> ethBurned (projr (calc_at ctx r)) \<le> b
            else r = 1024)"
proof -
  have "0 < (max (maxSize - 160) 0 * 40 + 21000) * currentGasPrice ctx"
    using assms by (simp add: calc_at_ethBurned)
  moreover have "0 < max (maxSize - 160) 0 * 40 + 21000"
    by (simp add: max_def)
  ultimately have "0 < currentGasPrice ctx"
    by (rule zero_less_mult_pos)
  then have gp: "0 \<le> currentGasPrice ctx"
    by simp
  have over: "b < ethBurned (projr (calc_at ctx (maxSize + 1)))"
    using assms(2) projected_cost_mono [OF gp, of maxSize "maxSize + 1"] by simp
  obtain r where r: "budget_search ctx b 1024 maxSize 1024 = Inr r"
    and alt: "r = 1024 \<and> (1024 \<le> maxSize \<longrightarrow> b < ethBurned (projr (calc_at ctx 1024))) \<or>
            1024 \<le> r \<and> r \<le> maxSize \<and> ethBurned (projr (calc_at ctx r)) \<le> b \<and>
              b < ethBurned (projr (calc_at ctx (r + 1)))"
    using budget_search_result [OF over, of 1024 1024] by blast
  obtain testCalc where t: "calc_at ctx maxSize = Inr testCalc"
    using calculateFctOutput_returns by blast
  have block: "budget_block ctx maxSize (Some b) = Inr (Some r)"
    using assms t r by (simp add: budget_block_def falsy_def)
  from alt show ?thesis
  proof
    assume a: "r = 1024 \<and> (1024 \<le> maxSize \<longrightarrow> b < ethBurned (projr (calc_at ctx 1024)))"
    have c: "b < ethBurned (projr (calc_at ctx 1024))"
    proof (cases "1024 \<le> maxSize")
      case True
      with a show ?thesis by blast
    next
      case False
      then have "ethBurned (projr (calc_at ctx maxSize)) \<le> ethBurned (projr (calc_at ctx 1024))"
        by (intro projected_cost_mono [OF gp]) simp
      with assms(2) show ?thesis by simp
    qed
    have "ethBurned (projr (calc_at ctx 1024)) \<le> ethBurned (projr (calc_at ctx (1024 + 1)))"
      by (intro projected_cost_mono [OF gp]) simp
    with c have "b < ethBurned (projr (calc_at ctx (r + 1)))"
      using a by simp
    with a c block show ?thesis by auto
  next
    assume a: "1024 \<le> r \<and> r \<le> maxSize \<and> ethBurned (projr (calc_at ctx r)) \<le> b \<and>
              b < ethBurned (projr (calc_at ctx (r + 1)))"
    then have "ethBurned (projr (calc_at ctx 1024)) \<le> ethBurned (projr (calc_at ctx r))"
      by (intro projected_cost_mono [OF gp]) simp
    with a have c: "ethBurned (projr (calc_at ctx 1024)) \<le> b" by simp
    have "r \<noteq> maxSize" using a assms(2) by auto
    with a c block show ?thesis by auto
  qed
qed

lemma getOptimalDataSize_budget_branch:
  assumes "0 < b" and "b < ethBurned (projr (calc_at ctx (maxKb * 1024)))"
  shows "\<exists>r. getOptimalDataSize strategy ctx maxKb (Some b) = Inr r \<and>
           b < ethBurned (projr (calc_at ctx (r + 1))) \<and>
           (if ethBurned (projr (calc_at ctx 1024)) \<le> b
            then 1024 \<le> r \<and> r < maxKb * 1024 \<and> ethBurned (projr (calc_at ctx r)) \<le> b
            else r = 1024)"
proof -
  obtain r where "budget_block ctx (maxKb * 1024) (Some b) = Inr (Some r)"
    and "b < ethBurned (projr (calc_at ctx (r + 1))) \<and>
           (if ethBurned (projr (calc_at ctx 1024)) \<le> b
            then 1024 \<le> r \<and> r < maxKb * 1024 \<and> ethBurned (projr (calc_at ctx r)) \<le> b
            else r = 1024)"
    using budget_block_result [OF assms] by blast
  then show ?thesis
    by (simp add: getOptimalDataSize_def)
qed

text \<open>
  C1: the code at a failing input. Gas price and base fee are 1 gwei, the maximum size is
  100 KiB and the remaining budget is \<open>10^13\<close> wei. The search is entered and returns
  1 KiB, whose projected cost of \<open>5.556 * 10^13\<close> wei is more than five times the budget.
\<close>

theorem getOptimalDataSize_over_budget:
  "getOptimalDataSize AUTO
     \<lparr>currentGasPrice = 1000000000, currentBaseFee = 1000000000, currentMintRate = 1,
      dexSpotPrice = None, sessionSpent = 0, sessionMined = 0, timestamp = 0,
      ethPriceUsd = Finite 3500\<rparr> 100 (Some 10000000000000) = Inr 1024 \<and>
   ethBurned (projr (calc_at
     \<lparr>currentGasPrice = 1000000000, currentBaseFee = 1000000000, currentMintRate = 1,
      dexSpotPrice = None, sessionSpent = 0, sessionMined = 0, timestamp = 0,
      ethPriceUsd = Finite 3500\<rparr> 1024)) = 55560000000000"
proof -
  let ?ctx = "\<lparr>currentGasPrice = 1000000000, currentBaseFee = 1000000000,
      currentMintRate = 1, dexSpotPrice = None, sessionSpent = 0, sessionMined = 0,
      timestamp = 0, ethPriceUsd = Finite 3500\<rparr>"
  have "\<exists>r. budget_block ?ctx 102400 (Some 10000000000000) = Inr (Some r) \<and>
           10000000000000 < ethBurned (projr (calc_at ?ctx (r + 1))) \<and>
           (if ethBurned (projr (calc_at ?ctx 1024)) \<le> 10000000000000
            then 1024 \<le> r \<and> r < 102400 \<and> ethBurned (projr (calc_at ?ctx r)) \<le> 10000000000000
            else r = 1024)"
    by (rule budget_block_result) (simp_all add: calculateFctOutput_ethBurned)
  then have "budget_block ?ctx 102400 (Some 10000000000000) = Inr (Some 1024)"
    by (auto simp add: calculateFctOutput_ethBurned)
  then show ?thesis
    by (simp add: getOptimalDataSize_def calculateFctOutput_ethBurned)
qed

text \<open>
  C2 (as amended). With the arbitrage strategy and no spot price the optimizer returns 0
  whenever the budget block is not entered: no remaining budget is passed, or it is not
  positive, or the projected cost at the maximum size is within it.
\<close>

theorem arbitrage_without_spot_price_skips:
  assumes "dexSpotPrice ctx = None"
    and "\<forall>b. remainingBudget = Some b \<longrightarrow>
           b \<le> 0 \<or> ethBurned (projr (calc_at ctx (maxKb * 1024))) \<le> b"
  shows "getOptimalDataSize ARBITRAGE ctx maxKb remainingBudget = Inr 0"
proof -
  obtain testCalc where t: "calc_at ctx (maxKb * 1024) = Inr testCalc"
    using calculateFctOutput_returns by blast
  have "budget_block ctx (maxKb * 1024) remainingBudget = Inr None"
    using assms(2) t by (cases remainingBudget) (auto simp add: budget_block_def falsy_def)
  then show ?thesis
    using assms(1) by (simp add: getOptimalDataSize_def falsy_def)
qed

theorem arbitrage_without_spot_price_skips_witness:
  "getOptimalDataSize ARBITRAGE
     \<lparr>currentGasPrice = 1000000000, currentBaseFee = 1000000000, currentMintRate = 1,
      dexSpotPrice = None, sessionSpent = 0, sessionMined = 0, timestamp = 0,
      ethPriceUsd = Finite 3500\<rparr> 100 (Some 1000000000000000000) = Inr 0"
  by (rule arbitrage_without_spot_price_skips) (simp_all add: calculateFctOutput_ethBurned)

text \<open>
  C2 as stated fails when the budget block is entered: with a remaining budget of 100000
  wei, a gas price of 1 wei and a maximum of 100 KiB the optimizer returns 2135 bytes,
  although the strategy is arbitrage and there is no spot price.
\<close>

theorem arbitrage_budget_counterexample:
  "getOptimalDataSize ARBITRAGE
     \<lparr>currentGasPrice = 1, currentBaseFee = 1, currentMintRate = 1,
      dexSpotPrice = None, sessionSpent = 0, sessionMined = 0, timestamp = 0,
      ethPriceUsd = Finite 3500\<rparr> 100 (Some 100000) = Inr 2135"
proof -
  let ?ctx = "\<lparr>currentGasPrice = 1, currentBaseFee = 1, currentMintRate = 1,
      dexSpotPrice = None, sessionSpent = 0, sessionMined = 0, timestamp = 0,
      ethPriceUsd = Finite 3500\<rparr>"
  have "\<exists>r. budget_block ?ctx 102400 (Some 100000) = Inr (Some r) \<and>
           100000 < ethBurned (projr (calc_at ?ctx (r + 1))) \<and>
           (if ethBurned (projr (calc_at ?ctx 1024)) \<le> 100000
            then 1024 \<le> r \<and> r < 102400 \<and> ethBurned (projr (calc_at ?ctx r)) \<le> 100000
            else r = 1024)"
    by (rule budget_block_result) (simp_all add: calculateFctOutput_ethBurned)
  then obtain r where r: "budget_block ?ctx 102400 (Some 100000) = Inr (Some r)"
    and b: "100000 < max (r + 1 - 160) 0 * 40 + 21000" "1024 \<le> r"
      "max (r - 160) 0 * 40 + 21000 \<le> 100000"
    by (auto simp add: calculateFctOutput_ethBurned)
  from b have "r = 2135" by (simp add: max_def split: if_splits)
  with r show ?thesis
    by (simp add: getOptimalDataSize_def)
qed

section \<open>Retry loop\<close>

text \<open>
  C7. With the default retry count, three failing attempts are made and no fourth; the
  loop sleeps 1000 ms after the first and 2000 ms after the second, and the caller gets
  the error of the third attempt.
\<close>

theorem mine_default_three_failures:
  assumes "maxRetries config = None"
    and "attemptMining config 0 = Inl e0"
    and "attemptMining config 1 = Inl e1"
    and "attemptMining config 2 = Inl e2"
  shows "mine attemptMining config =
           ([Attempt 0, Sleep (min (1000 * 2 ^ 0) 30000), Attempt 1,
             Sleep (min (1000 * 2 ^ 1) 30000), Attempt 2], Inl e2) \<and>
         min (1000 * 2 ^ 0) 30000 = (1000::int) \<and> min (1000 * 2 ^ 1) 30000 = (2000::int)"
proof -
  have s3: "mine_loop attemptMining config 3 3 (Some e2)
      [Attempt 0, Sleep 1000, Attempt 1, Sleep 2000, Attempt 2]
      = ([Attempt 0, Sleep 1000, Attempt 1, Sleep 2000, Attempt 2], Inl e2)"
    by (subst mine_loop.simps) simp
  have s2: "mine_loop attemptMining config 3 2 (Some e1)
      [Attempt 0, Sleep 1000, Attempt 1, Sleep 2000]
      = ([Attempt 0, Sleep 1000, Attempt 1, Sleep 2000, Attempt 2], Inl e2)"
    by (subst mine_loop.simps) (simp add: assms s3)
  have s1: "mine_loop attemptMining config 3 1 (Some e0) [Attempt 0, Sleep 1000]
      = ([Attempt 0, Sleep 1000, Attempt 1, Sleep 2000, Attempt 2], Inl e2)"
    by (subst mine_loop.simps) (simp add: assms s2)
  have s0: "mine_loop attemptMining config 3 0 None []
      = ([Attempt 0, Sleep 1000, Attempt 1, Sleep 2000, Attempt 2], Inl e2)"
    by (subst mine_loop.simps) (simp add: assms s1)
  show ?thesis by (simp add: mine_def assms s0)
qed

theorem mine_default_three_failures_witness:
  "mine (\<lambda>config attempt. Inl (Error ''timeout'') :: error + unit)
     \<lparr>cfg_dataSize = 102400, gasMultiplier = None, maxRetries = None, escalateGas = Some True\<rparr>
   = ([Attempt 0, Sleep 1000, Attempt 1, Sleep 2000, Attempt 2], Inl (Error ''timeout''))"
  using mine_default_three_failures
    [of "\<lparr>cfg_dataSize = 102400, gasMultiplier = None, maxRetries = None,
          escalateGas = Some True\<rparr>"
        "\<lambda>config attempt. Inl (Error ''timeout'') :: error + unit"
        "Error ''timeout''" "Error ''timeout''" "Error ''timeout''"]
  by simp

section \<open>Start-up does not find the saved counters\<close>

lemma start_without_saved_state:
  assumes "runtimeState db (''session_'' @ decimal (nextSessionId db) @ ''_spent'') = None"
    and "runtimeState db (''session_'' @ decimal (nextSessionId db) @ ''_mined'') = None"
  shows "\<exists>db'. start strategy now miner db =
           Inr (miner\<lparr>running := True, sessionId := nextSessionId db\<rparr>, db')"
  using assms
  by (simp add: start_def createSession_def getRuntimeState_def restore_field_def Let_def)

text \<open>
  The restore itself works: when the store does hold counters under the keys of the
  session that \<open>start\<close> is about to open, they are read back.
\<close>

lemma start_restores_keys_of_new_session:
  "(case start AUTO 3000 new_AutoMiner
           (saveRuntimeState
              (saveRuntimeState initializeEmpty ''session_1_spent'' ''55560000000000'' 2000)
              ''session_1_mined'' ''34560000000000'' 2000) of
      Inl e \<Rightarrow> False
    | Inr (miner, db) \<Rightarrow>
        sessionId miner = 1 \<and> miner_sessionSpent miner = 55560000000000 \<and>
        miner_sessionMined miner = 34560000000000)"
  by (simp add: start_def createSession_def getRuntimeState_def restore_field_def Let_def
      saveRuntimeState_def new_AutoMiner_def initializeEmpty_def
      decimal_def digits_of.simps digit_char_def strategy_value_def
      BigInt_of_string_def parse_natural_def digit_value_def)

text \<open>
  C4: the code at a failing input. A first miner starts on an empty store (session 1),
  mines once and saves its counters; the process dies. A second miner starts on the store
  left behind: the store still holds the counters of session 1, but the second miner opens
  session 2, looks under the keys of session 2 and keeps its counters at zero.
\<close>

theorem start_does_not_restore_prior_session:
  "(let (miner1, db1) = projr (start AUTO 1000 new_AutoMiner initializeEmpty);
        (miner1', db2) = miningCycle_save 55560000000000 34560000000000 2000 miner1 db1
    in getRuntimeState db2 ''session_1_spent'' = Some ''55560000000000'' \<and>
       getRuntimeState db2 ''session_1_mined'' = Some ''34560000000000'' \<and>
       (case start AUTO 3000 new_AutoMiner db2 of
          Inl e \<Rightarrow> False
        | Inr (miner2, db3) \<Rightarrow>
            sessionId miner2 = 2 \<and> miner_sessionSpent miner2 = 0 \<and>
            miner_sessionMined miner2 = 0))"
  by (simp add: start_def createSession_def getRuntimeState_def restore_field_def Let_def
      miningCycle_save_def saveRuntimeState_def new_AutoMiner_def initializeEmpty_def
      decimal_def digits_of.simps digit_char_def strategy_value_def)

end
